theory Spec2Isabelle
  imports Main "HOL-Library.Word"
begin

unbundle bit_operations_syntax

section \<open>Library references\<close>

text \<open>
  The module under verification is \<^verbatim>\<open>databricks_cli/pipelines/api.py\<close>.
  A \<^verbatim>\<open>LibraryObject\<close> has two attributes, \<^verbatim>\<open>path\<close> and \<^verbatim>\<open>lib_type\<close>. Python
  is dynamically typed and the attribute \<^verbatim>\<open>path\<close> holds a \<^verbatim>\<open>str\<close> almost everywhere but a
  \<^verbatim>\<open>DbfsPath\<close> object inside \<^verbatim>\<open>_get_files_to_upload\<close>, so the record is polymorphic in
  the type of the path. Python's \<^verbatim>\<open>__eq__\<close> compares both attributes, which is the
  equality of the record.
\<close>

record 'p library_object =
  path :: 'p
  lib_type :: string

definition LibraryObject :: "string \<Rightarrow> 'p \<Rightarrow> 'p library_object" where
  "LibraryObject lt lp = \<lparr> path = lp, lib_type = lt \<rparr>"

text \<open>
  An entry of \<^verbatim>\<open>spec['libraries']\<close> is a dictionary from strings to strings. The
  only operation the module performs on it is the iteration \<^verbatim>\<open>library.items()\<close>, so a
  dictionary is modelled by the list of its items in iteration order.
\<close>

type_synonym library = "(string \<times> string) list"

fun items_loop :: "(string \<times> string) list \<Rightarrow> string library_object list \<Rightarrow> string library_object list" where
  "items_loop [] lib_objects = lib_objects"
| "items_loop ((lt, p) # kvs) lib_objects = items_loop kvs (lib_objects @ [LibraryObject lt p])"

fun convert_from_loop :: "library list \<Rightarrow> string library_object list \<Rightarrow> string library_object list" where
  "convert_from_loop [] lib_objects = lib_objects"
| "convert_from_loop (l # ls) lib_objects = convert_from_loop ls (items_loop l lib_objects)"

definition convert_from_libraries :: "library list \<Rightarrow> string library_object list" where
  "convert_from_libraries libraries = convert_from_loop libraries []"

fun convert_to_loop :: "string library_object list \<Rightarrow> library list \<Rightarrow> library list" where
  "convert_to_loop [] libraries = libraries"
| "convert_to_loop (lo # los) libraries = convert_to_loop los (libraries @ [[(lib_type lo, path lo)]])"

definition convert_to_libraries :: "string library_object list \<Rightarrow> library list" where
  "convert_to_libraries lib_objects = convert_to_loop lib_objects []"

section \<open>Errors\<close>

text \<open>
  Every \<^verbatim>\<open>raise\<close> of the module is a value of this type. The module raises
  \<^verbatim>\<open>RuntimeError\<close> with a formatted message in three places and
  \<^verbatim>\<open>InvalidConfigurationError.for_profile(profile)\<close> in one; \<^verbatim>\<open>spec['id']\<close> raises
  \<^verbatim>\<open>KeyError\<close> on a dictionary without that key; \<^verbatim>\<open>urlsplit\<close> raises \<^verbatim>\<open>ValueError\<close>;
  an exception of a collaborator that the module does not catch is propagated as it is.
\<close>

datatype error =
    RuntimeError string
  | ValueError string
  | KeyError string
  | InvalidConfigurationError "string option"
  | CollaboratorError string

section \<open>The scheme of a path\<close>

text \<open>
  A Python string is a list of characters with code points below 256. \<^verbatim>\<open>str.lower\<close> on
  such a string changes the letters \<^verbatim>\<open>A\<close> to \<^verbatim>\<open>Z\<close> and the Latin-1 capitals (code points 192
  to 222, the multiplication sign 215 apart), each to the character 32 places further.
\<close>

definition lower_char :: "char \<Rightarrow> char" where
  "lower_char c =
     (if ((65::nat) \<le> of_char c \<and> of_char c \<le> (90::nat)) \<or>
         ((192::nat) \<le> of_char c \<and> of_char c \<le> (222::nat) \<and> of_char c \<noteq> (215::nat))
      then char_of (of_char c + (32::nat)) else c)"

definition lower :: "string \<Rightarrow> string" where
  "lower s = map lower_char s"

text \<open>\<^verbatim>\<open>s.startswith(p)\<close>\<close>

definition startswith :: "string \<Rightarrow> string \<Rightarrow> bool" where
  "startswith s p = (take (length p) s = p)"

text \<open>
  The module calls \<^verbatim>\<open>urllib.parse.urlsplit(lib_object.path).scheme\<close> of the standard
  library, whose result (and whether it raises) depends on the release of the
  interpreter. In the partition below the call is therefore a parameter, named
  \<open>urlsplit_scheme\<close>: the scheme, or the error raised.

  To run the module on concrete paths, here is the function as CPython 3.11 defines it,
  restricted to what decides the scheme and whether the call raises:
  \<^verbatim>\<open>
    url = url.lstrip(_WHATWG_C0_CONTROL_OR_SPACE)
    for b in _UNSAFE_URL_BYTES_TO_REMOVE:
        url = url.replace(b, "")
    i = url.find(':')
    if i > 0 and url[0].isascii() and url[0].isalpha():
        for c in url[:i]:
            if c not in scheme_chars:
                break
        else:
            scheme, url = url[:i].lower(), url[i+1:]
    if url[:2] == '//':
        netloc, url = _splitnetloc(url, 2)
        if (('[' in netloc and ']' not in netloc) or
                (']' in netloc and '[' not in netloc)):
            raise ValueError("Invalid IPv6 URL")
        if '[' in netloc and ']' in netloc:
            bracketed_host = netloc.partition('[')[2].partition(']')[0]
            _check_bracketed_host(bracketed_host)
    _checknetloc(netloc)
  \<close>
  \<^verbatim>\<open>_WHATWG_C0_CONTROL_OR_SPACE\<close> holds the characters with code points 0 to 32 and
  \<^verbatim>\<open>_UNSAFE_URL_BYTES_TO_REMOVE\<close> is tab, carriage return and line feed.
  \<^verbatim>\<open>_check_bracketed_host\<close>, which validates an address with the modules \<^verbatim>\<open>re\<close> and
  \<^verbatim>\<open>ipaddress\<close>, is the parameter \<open>check_bracketed_host\<close>: the error it raises, if any.
  \<^verbatim>\<open>_checknetloc\<close> raises only when the NFKC normal form of a character of the netloc
  contains one of \<^verbatim>\<open>/?#@:\<close>, which no character with a code point below 256 does.
\<close>

definition scheme_chars :: string where
  "scheme_chars = ''abcdefghijklmnopqrstuvwxyzABCDEFGHIJKLMNOPQRSTUVWXYZ0123456789+-.''"

definition lstrip_c0_control_or_space :: "string \<Rightarrow> string" where
  "lstrip_c0_control_or_space url = dropWhile (\<lambda>c. of_char c \<le> (32::nat)) url"

definition remove_unsafe_bytes :: "string \<Rightarrow> string" where
  "remove_unsafe_bytes url = filter (\<lambda>c. c \<notin> set [CHR 0x09, CHR 0x0D, CHR 0x0A]) url"

definition isascii_isalpha :: "char \<Rightarrow> bool" where
  "isascii_isalpha c =
     (((65::nat) \<le> of_char c \<and> of_char c \<le> (90::nat)) \<or>
      ((97::nat) \<le> of_char c \<and> of_char c \<le> (122::nat)))"

definition first_isascii_isalpha :: "string \<Rightarrow> bool" where
  "first_isascii_isalpha url = (case url of [] \<Rightarrow> False | c # cs \<Rightarrow> isascii_isalpha c)"

definition splitnetloc :: "string \<Rightarrow> string" where
  "splitnetloc url = takeWhile (\<lambda>c. c \<notin> set ''/?#'') (drop 2 url)"

definition bracketed_host :: "string \<Rightarrow> string" where
  "bracketed_host netloc =
     takeWhile (\<lambda>c. c \<noteq> CHR '']'') (drop 1 (dropWhile (\<lambda>c. c \<noteq> CHR ''['') netloc))"

definition netloc_check :: "(string \<Rightarrow> error option) \<Rightarrow> string \<Rightarrow> string \<Rightarrow> error + string" where
  "netloc_check check_bracketed_host scheme url =
     (if take 2 url = ''//'' then
        (let netloc = splitnetloc url in
         if (CHR ''['' \<in> set netloc \<and> CHR '']'' \<notin> set netloc) \<or>
            (CHR '']'' \<in> set netloc \<and> CHR ''['' \<notin> set netloc)
         then Inl (ValueError ''Invalid IPv6 URL'')
         else if CHR ''['' \<in> set netloc \<and> CHR '']'' \<in> set netloc then
           (case check_bracketed_host (bracketed_host netloc) of
              Some e \<Rightarrow> Inl e
            | None \<Rightarrow> Inr scheme)
         else Inr scheme)
      else Inr scheme)"

definition cpython_urlsplit_scheme :: "(string \<Rightarrow> error option) \<Rightarrow> string \<Rightarrow> error + string" where
  "cpython_urlsplit_scheme check_bracketed_host path_string =
     (let url = remove_unsafe_bytes (lstrip_c0_control_or_space path_string);
          pre = takeWhile (\<lambda>c. c \<noteq> CHR '':'') url
      in if CHR '':'' \<in> set url \<and> pre \<noteq> [] \<and> first_isascii_isalpha url \<and>
            list_all (\<lambda>c. c \<in> set scheme_chars) pre
         then netloc_check check_bracketed_host (lower pre) (drop (length pre + 1) url)
         else netloc_check check_bracketed_host [] url)"

text \<open>
  Releases before 3.11.4 have no \<^verbatim>\<open>_check_bracketed_host\<close>. The examples below use this
  instance; none of their paths has a bracket.
\<close>

definition no_bracketed_host_check :: "string \<Rightarrow> error option" where
  "no_bracketed_host_check host = None"

definition example_urlsplit_scheme :: "string \<Rightarrow> error + string" where
  "example_urlsplit_scheme = cpython_urlsplit_scheme no_bracketed_host_check"

section \<open>Partitioning into local and remote libraries\<close>

text \<open>
  \<^verbatim>\<open>PipelinesApi._partition_libraries_and_extract_local_paths\<close>: the loop over
  \<^verbatim>\<open>lib_objects\<close> with its two accumulators. The scheme is computed for every object,
  before its type is looked at, so an error of \<^verbatim>\<open>urlsplit\<close> ends the loop whatever the
  type is.
\<close>

fun partition_loop ::
  "(string \<Rightarrow> error + string) \<Rightarrow> string library_object list
     \<Rightarrow> string library_object list \<Rightarrow> string library_object list
     \<Rightarrow> error + (string library_object list \<times> string library_object list)" where
  "partition_loop urlsplit_scheme [] local_lib_objects rest_lib_objects =
     Inr (local_lib_objects, rest_lib_objects)"
| "partition_loop urlsplit_scheme (lib_object # los) local_lib_objects rest_lib_objects =
     (case urlsplit_scheme (path lib_object) of
        Inl e \<Rightarrow> Inl e
      | Inr uri_scheme \<Rightarrow>
          if lib_type lib_object = ''jar'' \<and> uri_scheme = [] then
            partition_loop urlsplit_scheme los (local_lib_objects @ [lib_object]) rest_lib_objects
          else if lib_type lib_object = ''jar'' \<and> lower uri_scheme = ''file'' then
            (if startswith (drop 4 (path lib_object)) '':////''
             then Inl (RuntimeError ''Invalid file uri scheme'')
             else partition_loop urlsplit_scheme los
                    (local_lib_objects @ [LibraryObject (lib_type lib_object) (drop 5 (path lib_object))])
                    rest_lib_objects)
          else partition_loop urlsplit_scheme los local_lib_objects (rest_lib_objects @ [lib_object]))"

definition partition_libraries_and_extract_local_paths ::
  "(string \<Rightarrow> error + string) \<Rightarrow> string library_object list
     \<Rightarrow> error + (string library_object list \<times> string library_object list)" where
  "partition_libraries_and_extract_local_paths urlsplit_scheme lib_objects =
     partition_loop urlsplit_scheme lib_objects [] []"

text \<open>
  The failure of the loop body: the module raises
  \<^verbatim>\<open>RuntimeError('Invalid file uri scheme')\<close>, which the specification calls
  \<open>InvalidPathError\<close>.
\<close>

definition InvalidPathError :: error where
  "InvalidPathError = RuntimeError ''Invalid file uri scheme''"

text \<open>
  The conditions of the first two branches of the loop body, and the object each of
  them appends to the local list.
\<close>

definition is_local :: "(string \<Rightarrow> error + string) \<Rightarrow> string library_object \<Rightarrow> bool" where
  "is_local urlsplit_scheme lib_object =
     (lib_type lib_object = ''jar'' \<and>
      (case urlsplit_scheme (path lib_object) of
         Inl e \<Rightarrow> False
       | Inr uri_scheme \<Rightarrow> uri_scheme = [] \<or> lower uri_scheme = ''file''))"

definition extract_local_path ::
  "(string \<Rightarrow> error + string) \<Rightarrow> string library_object \<Rightarrow> string library_object" where
  "extract_local_path urlsplit_scheme lib_object =
     (if urlsplit_scheme (path lib_object) = Inr [] then lib_object
      else LibraryObject (lib_type lib_object) (drop 5 (path lib_object)))"

section \<open>Request credentials\<close>

text \<open>
  \<^verbatim>\<open>PipelinesApi._get_credentials_for_request\<close>. The class \<^verbatim>\<open>DatabricksConfig\<close> and the
  functions \<^verbatim>\<open>get_profile_from_context\<close>, \<^verbatim>\<open>ProfileConfigProvider.get_config\<close> and
  \<^verbatim>\<open>get_config\<close> are imported from \<^verbatim>\<open>databricks_cli.configure\<close>. A configuration is
  the record of the five attributes the function reads (an attribute that is \<^verbatim>\<open>None\<close>
  is \<open>None\<close>); the three functions are parameters, each returning a configuration,
  \<^verbatim>\<open>None\<close>, or raising an error of its own.
\<close>

record databricks_config =
  is_valid :: bool
  is_valid_with_token :: bool
  token :: "string option"
  username :: "string option"
  password :: "string option"

record config_env =
  get_profile_from_context :: "string option"
  ProfileConfigProvider_get_config :: "string \<Rightarrow> error + databricks_config option"
  get_config :: "error + databricks_config option"

text \<open>The returned dictionary, as the list of its items.\<close>

type_synonym credentials = "(string \<times> string option) list"

text \<open>
  Lines 140 to 144: \<^verbatim>\<open>if profile:\<close> is false for \<^verbatim>\<open>None\<close> and for the empty string.
\<close>

definition resolve_config :: "config_env \<Rightarrow> error + databricks_config option" where
  "resolve_config cenv =
     (case get_profile_from_context cenv of
        None \<Rightarrow> get_config cenv
      | Some profile \<Rightarrow>
          if profile \<noteq> [] then ProfileConfigProvider_get_config cenv profile
          else get_config cenv)"

definition get_credentials_for_request :: "config_env \<Rightarrow> error + credentials" where
  "get_credentials_for_request cenv =
     (case resolve_config cenv of
        Inl e \<Rightarrow> Inl e
      | Inr None \<Rightarrow> Inl (InvalidConfigurationError (get_profile_from_context cenv))
      | Inr (Some config) \<Rightarrow>
          if \<not> is_valid config then Inl (InvalidConfigurationError (get_profile_from_context cenv))
          else if is_valid_with_token config then Inr [(''token'', token config)]
          else Inr [(''user'', username config), (''password'', password config)])"

text \<open>
  The specification's \<open>ConfigurationError\<close> is the module's
  \<^verbatim>\<open>InvalidConfigurationError\<close>, raised at line 146.
\<close>

definition ConfigurationError :: "error \<Rightarrow> bool" where
  "ConfigurationError e = (case e of InvalidConfigurationError profile \<Rightarrow> True | _ \<Rightarrow> False)"

text \<open>Configurations and resolvers used to run the function on concrete inputs.\<close>

definition token_config :: databricks_config where
  "token_config = \<lparr> is_valid = True, is_valid_with_token = True, token = Some ''dapi123'',
     username = None, password = None \<rparr>"

definition password_config :: databricks_config where
  "password_config = \<lparr> is_valid = True, is_valid_with_token = False, token = None,
     username = Some ''alice'', password = Some ''secret'' \<rparr>"

definition invalid_config :: databricks_config where
  "invalid_config = \<lparr> is_valid = False, is_valid_with_token = False, token = None,
     username = Some ''alice'', password = None \<rparr>"

definition default_env :: "databricks_config option \<Rightarrow> config_env" where
  "default_env c = \<lparr> get_profile_from_context = None,
     ProfileConfigProvider_get_config = (\<lambda>profile. Inr None), get_config = Inr c \<rparr>"

definition profile_env :: "string \<Rightarrow> databricks_config option \<Rightarrow> config_env" where
  "profile_env p c = \<lparr> get_profile_from_context = Some p,
     ProfileConfigProvider_get_config = (\<lambda>profile. if profile = p then Inr c else Inr None),
     get_config = Inr None \<rparr>"

section \<open>The content hash\<close>

text \<open>
  \<^verbatim>\<open>hashlib.sha1\<close> of the standard library: SHA-1 as in FIPS 180-4, on a list of bytes.
  A 32-bit word is an integer from 0 to \<open>2\<^sup>3\<^sup>2 - 1\<close>; additions and rotations have the
  reduction \<open>mod 2\<^sup>3\<^sup>2\<close> written out.
\<close>

type_synonym byte = "8 word"

definition add32 :: "int \<Rightarrow> int \<Rightarrow> int" where
  "add32 a b = (a + b) mod 4294967296"

definition rotl32 :: "nat \<Rightarrow> int \<Rightarrow> int" where
  "rotl32 n w = (w * 2 ^ n) mod 4294967296 + w div 2 ^ (32 - n)"

definition not32 :: "int \<Rightarrow> int" where
  "not32 w = 4294967295 - w"

text \<open>The length of the message in bits, as eight bytes, most significant first.\<close>

definition be64 :: "int \<Rightarrow> int list" where
  "be64 n = map (\<lambda>i. n div 2 ^ (8 * (7 - i)) mod 256) [0..<8]"

definition sha1_pad :: "int list \<Rightarrow> int list" where
  "sha1_pad msg =
     msg @ [128] @ replicate ((119 - length msg mod 64) mod 64) 0 @ be64 (8 * int (length msg))"

fun be_words :: "int list \<Rightarrow> int list" where
  "be_words (b0 # b1 # b2 # b3 # bs) =
     (b0 * 16777216 + b1 * 65536 + b2 * 256 + b3) # be_words bs"
| "be_words bs = []"

text \<open>
  The message schedule, built most recent word first: from the sixteen words of a block
  (reversed), \<open>n\<close> further words \<open>W\<^sub>t = ROTL\<^sup>1 (W\<^bsub>t-3\<^esub> XOR W\<^bsub>t-8\<^esub> XOR W\<^bsub>t-14\<^esub> XOR W\<^bsub>t-16\<^esub>)\<close>.
\<close>

fun schedule :: "nat \<Rightarrow> int list \<Rightarrow> int list" where
  "schedule 0 rs = rev rs"
| "schedule (Suc n) rs =
     schedule n (rotl32 1 (rs ! 2 XOR rs ! 7 XOR rs ! 13 XOR rs ! 15) # rs)"

definition round_f :: "nat \<Rightarrow> int \<Rightarrow> int \<Rightarrow> int \<Rightarrow> int" where
  "round_f t b c d =
     (if t < 20 then (b AND c) OR (not32 b AND d)
      else if t < 40 then b XOR c XOR d
      else if t < 60 then (b AND c) OR (b AND d) OR (c AND d)
      else b XOR c XOR d)"

definition round_k :: "nat \<Rightarrow> int" where
  "round_k t =
     (if t < 20 then 0x5A827999 else if t < 40 then 0x6ED9EBA1
      else if t < 60 then 0x8F1BBCDC else 0xCA62C1D6)"

type_synonym sha1_state = "int \<times> int \<times> int \<times> int \<times> int"

fun rounds :: "nat \<Rightarrow> int list \<Rightarrow> sha1_state \<Rightarrow> sha1_state" where
  "rounds t [] s = s"
| "rounds t (w # ws) (a, b, c, d, e) =
     rounds (Suc t) ws
       (add32 (add32 (add32 (add32 (rotl32 5 a) (round_f t b c d)) e) (round_k t)) w,
        a, rotl32 30 b, c, d)"

definition compress :: "sha1_state \<Rightarrow> int list \<Rightarrow> sha1_state" where
  "compress h block =
     (case (h, rounds 0 (schedule 64 (rev (be_words block))) h) of
        ((h0, h1, h2, h3, h4), (a, b, c, d, e)) \<Rightarrow>
          (add32 h0 a, add32 h1 b, add32 h2 c, add32 h3 d, add32 h4 e))"

function blocks :: "sha1_state \<Rightarrow> int list \<Rightarrow> sha1_state" where
  "blocks h bs = (if length bs < 64 then h else blocks (compress h (take 64 bs)) (drop 64 bs))"
  by pat_completeness auto
termination
  by (relation "measure (\<lambda>(h, bs). length bs)") auto

declare blocks.simps [simp del]

definition hex_digit :: "nat \<Rightarrow> char" where
  "hex_digit n = ''0123456789abcdef'' ! (n mod 16)"

definition hex_word :: "int \<Rightarrow> string" where
  "hex_word w = map (\<lambda>i. hex_digit (nat (w div 2 ^ (4 * (7 - i)) mod 16))) [0..<8]"

definition sha1_hexdigest :: "byte list \<Rightarrow> string" where
  "sha1_hexdigest msg =
     (case blocks (0x67452301, 0xEFCDAB89, 0x98BADCFE, 0x10325476, 0xC3D2E1F0)
             (sha1_pad (map uint msg)) of
        (h0, h1, h2, h3, h4) \<Rightarrow>
          hex_word h0 @ hex_word h1 @ hex_word h2 @ hex_word h3 @ hex_word h4)"

text \<open>
  The hash object. By the contract of \<^verbatim>\<open>hashlib\<close>, \<^verbatim>\<open>m.update(a); m.update(b)\<close> is
  \<^verbatim>\<open>m.update(a + b)\<close> and \<^verbatim>\<open>m.hexdigest()\<close> is the digest of all the data fed so far: the
  state of the object is that data.
\<close>

type_synonym sha1_object = "byte list"

definition sha1 :: sha1_object where
  "sha1 = []"

definition update :: "sha1_object \<Rightarrow> byte list \<Rightarrow> sha1_object" where
  "update hash_buffer data = hash_buffer @ data"

definition hexdigest :: "sha1_object \<Rightarrow> string" where
  "hexdigest hash_buffer = sha1_hexdigest hash_buffer"

section \<open>The remote path of a local file\<close>

definition BUFFER_SIZE :: nat where
  "BUFFER_SIZE = 1024 * 64"

definition base_pipelines_dir :: string where
  "base_pipelines_dir = ''dbfs:/pipelines/code/''"

text \<open>
  The loop of \<^verbatim>\<open>_get_hashed_path\<close>: \<^verbatim>\<open>f.read(BUFFER_SIZE)\<close> returns the next
  \<^verbatim>\<open>BUFFER_SIZE\<close> bytes of the file (fewer at its end, none after it); the first argument
  is the part of the file not read yet.
\<close>

function read_loop :: "byte list \<Rightarrow> sha1_object \<Rightarrow> sha1_object" where
  "read_loop f hash_buffer =
     (if take BUFFER_SIZE f = [] then hash_buffer
      else read_loop (drop BUFFER_SIZE f) (update hash_buffer (take BUFFER_SIZE f)))"
  by pat_completeness auto
termination
  by (relation "measure (\<lambda>(f, hash_buffer). length f)") (auto simp: BUFFER_SIZE_def)

declare read_loop.simps [simp del]

text \<open>
  \<^verbatim>\<open>os.path.splitext(path)[1]\<close> of the standard library (\<^verbatim>\<open>posixpath\<close>, that is
  \<^verbatim>\<open>genericpath._splitext(p, '/', None, '.')\<close>):
  \<^verbatim>\<open>
    sepIndex = p.rfind(sep)
    dotIndex = p.rfind(extsep)
    if dotIndex > sepIndex:
        # skip all leading dots
        filenameIndex = sepIndex + 1
        while filenameIndex < dotIndex:
            if p[filenameIndex:filenameIndex+1] != extsep:
                return p[:dotIndex], p[dotIndex:]
            filenameIndex += 1
    return p, p[:0]
  \<close>
\<close>

definition rfind :: "char \<Rightarrow> string \<Rightarrow> int" where
  "rfind c p =
     (if c \<in> set p then int (length p) - 1 - int (length (takeWhile (\<lambda>x. x \<noteq> c) (rev p)))
      else - 1)"

function splitext_loop :: "string \<Rightarrow> nat \<Rightarrow> nat \<Rightarrow> string" where
  "splitext_loop p filenameIndex dotIndex =
     (if filenameIndex < dotIndex then
        (if take 1 (drop filenameIndex p) \<noteq> ''.'' then drop dotIndex p
         else splitext_loop p (Suc filenameIndex) dotIndex)
      else [])"
  by pat_completeness auto
termination
  by (relation "measure (\<lambda>(p, filenameIndex, dotIndex). dotIndex - filenameIndex)") auto

declare splitext_loop.simps [simp del]

definition splitext_ext :: "string \<Rightarrow> string" where
  "splitext_ext p =
     (let sepIndex = rfind CHR ''/'' p; dotIndex = rfind CHR ''.'' p
      in if dotIndex > sepIndex then splitext_loop p (nat (sepIndex + 1)) (nat dotIndex) else [])"

text \<open>
  \<^verbatim>\<open>PipelinesApi._get_hashed_path\<close>. The local file system is the parameter
  \<open>open_rb\<close>: the bytes of the file at a path, or the message \<^verbatim>\<open>str(e)\<close> of the exception
  that opening or reading it raises. The module turns that exception into a
  \<^verbatim>\<open>RuntimeError\<close>, which the specification calls \<open>FileAccessError\<close>.
\<close>

definition FileAccessError :: "string \<Rightarrow> string \<Rightarrow> error" where
  "FileAccessError cause local_path =
     RuntimeError (''Error '' @ [CHR 0x27] @ cause @ [CHR 0x27] @ '' while processing '' @ local_path)"

definition get_hashed_path :: "(string \<Rightarrow> string + byte list) \<Rightarrow> string \<Rightarrow> error + string" where
  "get_hashed_path open_rb local_path =
     (case open_rb local_path of
        Inl cause \<Rightarrow> Inl (FileAccessError cause local_path)
      | Inr f \<Rightarrow>
          (let hash_buffer = read_loop f sha1;
               file_hash = hexdigest hash_buffer
           in Inr (base_pipelines_dir @ file_hash @ splitext_ext local_path)))"

text \<open>
  The extension in the words of the specification: the substring from the last dot of
  the final path segment, the dot included, and the empty string when that segment has
  no dot. \<open>stem\<close> is what stands before that dot in the final segment.
\<close>

definition final_segment :: "string \<Rightarrow> string" where
  "final_segment p = rev (takeWhile (\<lambda>c. c \<noteq> CHR ''/'') (rev p))"

definition spec_extension :: "string \<Rightarrow> string" where
  "spec_extension p =
     (let seg = final_segment p
      in if CHR ''.'' \<in> set seg then CHR ''.'' # rev (takeWhile (\<lambda>c. c \<noteq> CHR ''.'') (rev seg))
         else [])"

definition stem :: "string \<Rightarrow> string" where
  "stem p = rev (drop 1 (dropWhile (\<lambda>c. c \<noteq> CHR ''.'') (rev (final_segment p))))"

text \<open>A file system in which every file can be read and is empty.\<close>

definition empty_files :: "string \<Rightarrow> string + byte list" where
  "empty_files local_path = Inr []"

text \<open>A file system in which every file can be read and holds the three bytes \<^verbatim>\<open>abc\<close>.\<close>

definition abc_files :: "string \<Rightarrow> string + byte list" where
  "abc_files local_path = Inr [0x61, 0x62, 0x63]"

section \<open>The upload plan, the uploads and the deploy\<close>

text \<open>
  The remote store is reached through \<^verbatim>\<open>self.dbfs_client\<close> (\<^verbatim>\<open>DbfsApi\<close>) and the class
  \<^verbatim>\<open>DbfsPath\<close>, both imported from \<^verbatim>\<open>databricks_cli.dbfs\<close>. They are parameters:
  \<^item> \<open>'st\<close> is the state of the store and \<open>'p\<close> the type of \<^verbatim>\<open>DbfsPath\<close> objects;
  \<^item> \<open>DbfsPath\<close> is the constructor, which may raise;
  \<^item> \<open>file_exists\<close> reads the store;
  \<^item> \<open>put_file\<close> returns the store it leaves and, when it raises, the message
    \<^verbatim>\<open>str(e)\<close> of its exception.
\<close>

record ('st, 'p) dbfs_env =
  DbfsPath :: "string \<Rightarrow> error + 'p"
  file_exists :: "'st \<Rightarrow> 'p \<Rightarrow> bool"
  put_file :: "'st \<Rightarrow> string \<Rightarrow> 'p \<Rightarrow> bool \<Rightarrow> string option \<times> 'st"

text \<open>
  What a call of \<^verbatim>\<open>deploy\<close> does to the world: the state of the store, and the calls
  it has made, in order: the paths asked of \<^verbatim>\<open>file_exists\<close>, the arguments of every
  \<^verbatim>\<open>put_file\<close>, and the requests handed to \<^verbatim>\<open>perform_query\<close>.
\<close>

record ('st, 'p, 'r) world =
  store :: 'st
  exists_queries :: "'p list"
  put_calls :: "(string \<times> 'p \<times> bool) list"
  requests :: "'r list"

text \<open>
  \<^verbatim>\<open>PipelinesApi._get_files_to_upload\<close>. In Python 3 \<^verbatim>\<open>map\<close>, \<^verbatim>\<open>zip\<close> and \<^verbatim>\<open>filter\<close> are
  lazy and \<^verbatim>\<open>list\<close> drives them pair by pair: the \<^verbatim>\<open>DbfsPath\<close> of a pair is built, then
  its existence is asked. \<^verbatim>\<open>zip\<close> stops at the end of the shorter list. The result is
  paired with the paths asked of \<^verbatim>\<open>file_exists\<close>, in order.
\<close>

fun files_to_upload_loop ::
  "('st, 'p) dbfs_env \<Rightarrow> 'st \<Rightarrow> string library_object list \<Rightarrow> string library_object list
     \<Rightarrow> (error + (string library_object \<times> 'p library_object) list) \<times> 'p list" where
  "files_to_upload_loop env st (llo # llos) (rlo # rlos) =
     (case DbfsPath env (path rlo) of
        Inl e \<Rightarrow> (Inl e, [])
      | Inr dbfs_path \<Rightarrow>
          (case files_to_upload_loop env st llos rlos of
             (Inl e, asked) \<Rightarrow> (Inl e, dbfs_path # asked)
           | (Inr kept, asked) \<Rightarrow>
               (Inr (if \<not> file_exists env st dbfs_path
                     then (llo, LibraryObject (lib_type rlo) dbfs_path) # kept else kept),
                dbfs_path # asked)))"
| "files_to_upload_loop env st llos rlos = (Inr [], [])"

definition get_files_to_upload ::
  "('st, 'p) dbfs_env \<Rightarrow> ('st, 'p, 'r) world \<Rightarrow> string library_object list \<Rightarrow> string library_object list
     \<Rightarrow> (error + (string library_object \<times> 'p library_object) list) \<times> ('st, 'p, 'r) world" where
  "get_files_to_upload env w local_lib_objects remote_lib_objects =
     (case files_to_upload_loop env (store w) local_lib_objects remote_lib_objects of
        (result, asked) \<Rightarrow> (result, w\<lparr>exists_queries := exists_queries w @ asked\<rparr>))"

text \<open>
  The loop of lines 58 to 62. The module raises
  \<^verbatim>\<open>RuntimeError('Error \'{}\' while uploading {}'.format(e, llo.path))\<close>, which the
  specification calls \<open>UploadError\<close>.
\<close>

definition UploadError :: "string \<Rightarrow> string \<Rightarrow> error" where
  "UploadError cause local_path =
     RuntimeError (''Error '' @ [CHR 0x27] @ cause @ [CHR 0x27] @ '' while uploading '' @ local_path)"

fun upload_loop ::
  "('st, 'p) dbfs_env \<Rightarrow> ('st, 'p, 'r) world \<Rightarrow> (string library_object \<times> 'p library_object) list
     \<Rightarrow> (error + unit) \<times> ('st, 'p, 'r) world" where
  "upload_loop env w [] = (Inr (), w)"
| "upload_loop env w ((llo, rlo) # upload_files) =
     (case put_file env (store w) (path llo) (path rlo) False of
        (raised, st) \<Rightarrow>
          (let w' = w\<lparr>store := st, put_calls := put_calls w @ [(path llo, path rlo, False)]\<rparr>
           in case raised of
                Some e \<Rightarrow> (Inl (UploadError e (path llo)), w')
              | None \<Rightarrow> upload_loop env w' upload_files))"

text \<open>
  Line 53: the remote object of every local object, in order; the first file that cannot
  be read ends the call.
\<close>

fun hashed_lib_objects ::
  "(string \<Rightarrow> string + byte list) \<Rightarrow> string library_object list \<Rightarrow> error + string library_object list" where
  "hashed_lib_objects open_rb [] = Inr []"
| "hashed_lib_objects open_rb (llo # llos) =
     (case get_hashed_path open_rb (path llo) of
        Inl e \<Rightarrow> Inl e
      | Inr remote_path \<Rightarrow>
          (case hashed_lib_objects open_rb llos of
             Inl e \<Rightarrow> Inl e
           | Inr rlos \<Rightarrow> Inr (LibraryObject (lib_type llo) remote_path # rlos)))"

text \<open>
  The specification \<^verbatim>\<open>spec\<close> is a dictionary; the module reads and writes the entries
  \<^verbatim>\<open>libraries\<close>, \<^verbatim>\<open>credentials\<close> and \<^verbatim>\<open>id\<close>. An absent entry is \<open>None\<close>; the other
  entries are the extension of the record. A request is the four arguments of
  \<^verbatim>\<open>perform_query\<close>.
\<close>

record pipeline_spec =
  spec_id :: "string option"
  libraries :: "library list option"
  credentials :: "credentials option"

record 'z request =
  http_method :: string
  url_path :: string
  data :: "'z pipeline_spec_scheme"
  headers :: "(string \<times> string) list option"

text \<open>
  \<^verbatim>\<open>PipelinesApi.deploy\<close>. The parameters are \<^verbatim>\<open>urlsplit\<close>, the local file system \<open>open_rb\<close>, the
  remote store \<open>env\<close>, the configuration \<open>cenv\<close> and \<open>perform_query\<close>, which returns the
  error it raises, if any. The result is what the call raises or \<open>Inr ()\<close>, and the world
  it leaves.
\<close>

definition deploy ::
  "(string \<Rightarrow> error + string) \<Rightarrow> (string \<Rightarrow> string + byte list)
     \<Rightarrow> ('st, 'p) dbfs_env \<Rightarrow> config_env
     \<Rightarrow> ('z request \<Rightarrow> error option)
     \<Rightarrow> ('st, 'p, 'z request) world \<Rightarrow> 'z pipeline_spec_scheme \<Rightarrow> (string \<times> string) list option
     \<Rightarrow> (error + unit) \<times> ('st, 'p, 'z request) world" where
  "deploy urlsplit_scheme open_rb env cenv perform_query w spec hdrs =
     (let lib_objects = convert_from_libraries (case libraries spec of None \<Rightarrow> [] | Some ls \<Rightarrow> ls)
      in case partition_libraries_and_extract_local_paths urlsplit_scheme lib_objects of
           Inl e \<Rightarrow> (Inl e, w)
         | Inr (local_lib_objects, rest_lib_objects) \<Rightarrow>
             (case hashed_lib_objects open_rb local_lib_objects of
                Inl e \<Rightarrow> (Inl e, w)
              | Inr remote_lib_objects \<Rightarrow>
                  (case get_files_to_upload env w local_lib_objects remote_lib_objects of
                     (Inl e, w1) \<Rightarrow> (Inl e, w1)
                   | (Inr upload_files, w1) \<Rightarrow>
                       (case upload_loop env w1 upload_files of
                          (Inl e, w2) \<Rightarrow> (Inl e, w2)
                        | (Inr u, w2) \<Rightarrow>
                            (let spec1 = spec\<lparr>libraries :=
                                   Some (convert_to_libraries (rest_lib_objects @ remote_lib_objects))\<rparr>
                             in case get_credentials_for_request cenv of
                                  Inl e \<Rightarrow> (Inl e, w2)
                                | Inr creds \<Rightarrow>
                                    (let spec2 = spec1\<lparr>credentials := Some creds\<rparr>
                                     in case spec_id spec2 of
                                          None \<Rightarrow> (Inl (KeyError ''id''), w2)
                                        | Some pipeline_id \<Rightarrow>
                                            (let req = \<lparr> http_method = ''PUT'',
                                                   url_path = ''/pipelines/'' @ pipeline_id,
                                                   data = spec2, headers = hdrs \<rparr>;
                                                 w3 = w2\<lparr>requests := requests w2 @ [req]\<rparr>
                                             in case perform_query req of
                                                  Some e \<Rightarrow> (Inl e, w3)
                                                | None \<Rightarrow> (Inr (), w3))))))))"

text \<open>
  Notions used to state the properties: the remote objects as \<^verbatim>\<open>_get_files_to_upload\<close>
  transforms them (the path replaced by its \<^verbatim>\<open>DbfsPath\<close> object), and the \<^verbatim>\<open>put_file\<close>
  call of a pair.
\<close>

definition transformed_remote_lib_objects ::
  "string library_object list \<Rightarrow> 'p list \<Rightarrow> 'p library_object list" where
  "transformed_remote_lib_objects remote_lib_objects dbfs_paths =
     map2 (\<lambda>rlo dbfs_path. LibraryObject (lib_type rlo) dbfs_path) remote_lib_objects dbfs_paths"

definition put_call :: "string library_object \<times> 'p library_object \<Rightarrow> string \<times> 'p \<times> bool" where
  "put_call pair = (path (fst pair), path (snd pair), False)"

definition absent_pairs ::
  "('st, 'p) dbfs_env \<Rightarrow> 'st \<Rightarrow> string library_object list \<Rightarrow> 'p library_object list
     \<Rightarrow> (string library_object \<times> 'p library_object) list" where
  "absent_pairs env st local_lib_objects transformed =
     filter (\<lambda>(llo, rlo). \<not> file_exists env st (path rlo)) (zip local_lib_objects transformed)"

text \<open>
  A concrete world to run the deploy in. Three local files: \<^verbatim>\<open>/tmp/a.jar\<close> is empty,
  \<^verbatim>\<open>/tmp/b.jar\<close> holds \<^verbatim>\<open>abc\<close> and \<^verbatim>\<open>/tmp/c.jar\<close> holds \<^verbatim>\<open>a\<close>; no other file exists. The
  store is the list of the remote paths it holds; \<^verbatim>\<open>DbfsPath\<close> accepts the paths that
  start with \<^verbatim>\<open>dbfs:/\<close>; \<^verbatim>\<open>put_file\<close> fails for the local paths listed in \<open>failing\<close> and
  adds the remote path to the store otherwise.
\<close>

definition local_files :: "string \<Rightarrow> string + byte list" where
  "local_files local_path =
     (if local_path = ''/tmp/a.jar'' then Inr []
      else if local_path = ''/tmp/b.jar'' then Inr [0x61, 0x62, 0x63]
      else if local_path = ''/tmp/c.jar'' then Inr [0x61]
      else Inl ''No such file or directory'')"

definition list_store :: "string list \<Rightarrow> (string list, string) dbfs_env" where
  "list_store failing =
     \<lparr> DbfsPath = (\<lambda>p. if startswith p ''dbfs:/'' then Inr p
                       else Inl (CollaboratorError ''InvalidDbfsPath'')),
       file_exists = (\<lambda>st p. p \<in> set st),
       put_file = (\<lambda>st local_path p overwrite.
          if local_path \<in> set failing then (Some ''quota exceeded'', st) else (None, st @ [p])) \<rparr>"

definition start_world :: "string list \<Rightarrow> (string list, string, 'r) world" where
  "start_world st = \<lparr> store = st, exists_queries = [], put_calls = [], requests = [] \<rparr>"

definition accept_query :: "'z request \<Rightarrow> error option" where
  "accept_query req = None"

definition remote_a :: string where
  "remote_a = ''dbfs:/pipelines/code/da39a3ee5e6b4b0d3255bfef95601890afd80709.jar''"

definition remote_b :: string where
  "remote_b = ''dbfs:/pipelines/code/a9993e364706816aba3e25717850c26c9cd0d89d.jar''"

definition remote_c :: string where
  "remote_c = ''dbfs:/pipelines/code/86f7e437faa5a7fce15d1ddcb9eaeaea377667b8.jar''"

text \<open>Two specifications: three local jars, and a mix of local and remote libraries.\<close>

definition three_jars_spec :: pipeline_spec where
  "three_jars_spec =
     \<lparr> spec_id = Some ''p1'',
       libraries = Some [[(''jar'', ''/tmp/a.jar'')], [(''jar'', ''/tmp/b.jar'')], [(''jar'', ''/tmp/c.jar'')]],
       credentials = None \<rparr>"

definition mixed_spec :: "string option \<Rightarrow> pipeline_spec" where
  "mixed_spec pipeline_id =
     \<lparr> spec_id = pipeline_id,
       libraries = Some [[(''jar'', ''/tmp/a.jar'')], [(''jar'', ''s3://bucket/c.jar'')],
                         [(''whl'', ''dbfs:/x.whl'')], [(''jar'', ''file:/tmp/b.jar'')]],
       credentials = None \<rparr>"

section \<open>Properties of the conversions\<close>

lemma items_loop_eq: "items_loop kvs acc = acc @ map (\<lambda>(lt, p). LibraryObject lt p) kvs"
  by (induction kvs acc rule: items_loop.induct) simp_all

lemma convert_from_loop_eq:
  "convert_from_loop ls acc = acc @ concat (map (map (\<lambda>(lt, p). LibraryObject lt p)) ls)"
  by (induction ls arbitrary: acc) (simp_all add: items_loop_eq)

lemma convert_from_libraries_eq:
  "convert_from_libraries ls = concat (map (map (\<lambda>(lt, p). LibraryObject lt p)) ls)"
  by (simp add: convert_from_libraries_def convert_from_loop_eq)

lemma convert_to_loop_eq:
  "convert_to_loop los acc = acc @ map (\<lambda>lo. [(lib_type lo, path lo)]) los"
  by (induction los arbitrary: acc) simp_all

lemma convert_to_libraries_eq:
  "convert_to_libraries los = map (\<lambda>lo. [(lib_type lo, path lo)]) los"
  by (simp add: convert_to_libraries_def convert_to_loop_eq)

lemma flattened_after_conversions:
  "convert_to_libraries (convert_from_libraries ls) = map (\<lambda>kv. [kv]) (concat ls)"
  by (induction ls) (auto simp: convert_to_libraries_eq convert_from_libraries_eq LibraryObject_def)

lemma single_key_concat:
  "list_all (\<lambda>l. length l = 1) ls \<Longrightarrow> map (\<lambda>kv. [kv]) (concat ls) = ls"
proof (induction ls)
  case Nil
  then show ?case by simp
next
  case (Cons l ls)
  then obtain kv where "l = [kv]" by (cases l) auto
  with Cons show ?case by simp
qed

text \<open>
  Claim C10. Converting a list of single-key mappings to library objects and back gives
  the same list, in the same order. In general every entry of every mapping becomes one
  library object, and the way back yields one single-key mapping per entry.
\<close>

theorem round_trip:
  "convert_to_libraries (convert_from_libraries ls) = map (\<lambda>kv. [kv]) (concat ls) \<and>
   length (convert_from_libraries ls) = length (concat ls) \<and>
   (list_all (\<lambda>l. length l = 1) ls \<longrightarrow> convert_to_libraries (convert_from_libraries ls) = ls)"
proof -
  have flat: "convert_to_libraries (convert_from_libraries ls) = map (\<lambda>kv. [kv]) (concat ls)"
    by (rule flattened_after_conversions)
  have "length (convert_to_libraries (convert_from_libraries ls)) = length (convert_from_libraries ls)"
    by (simp only: convert_to_libraries_eq length_map)
  with flat have len: "length (convert_from_libraries ls) = length (concat ls)"
    by simp
  have single: "list_all (\<lambda>l. length l = 1) ls \<longrightarrow> convert_to_libraries (convert_from_libraries ls) = ls"
    using flat single_key_concat [of ls] by simp
  from flat len single show ?thesis by blast
qed

theorem round_trip_witness:
  "list_all (\<lambda>l. length l = 1) [[(''jar'', ''/a.jar'')], [(''whl'', ''dbfs:/b.whl'')]] \<and>
   convert_to_libraries (convert_from_libraries [[(''jar'', ''/a.jar'')], [(''whl'', ''dbfs:/b.whl'')]])
     = [[(''jar'', ''/a.jar'')], [(''whl'', ''dbfs:/b.whl'')]] \<and>
   convert_to_libraries (convert_from_libraries [[(''jar'', ''/a.jar''), (''egg'', ''c.egg'')], []])
     = [[(''jar'', ''/a.jar'')], [(''egg'', ''c.egg'')]]"
  using round_trip [of "[[(''jar'', ''/a.jar'')], [(''whl'', ''dbfs:/b.whl'')]]"]
        round_trip [of "[[(''jar'', ''/a.jar''), (''egg'', ''c.egg'')], []]"]
  by simp

section \<open>Properties of the partition\<close>

lemma partition_loop_Inr:
  "partition_loop sch xs l r = Inr (loc, rest) \<Longrightarrow>
     loc = l @ map (extract_local_path sch) (filter (is_local sch) xs) \<and>
     rest = r @ filter (\<lambda>lo. \<not> is_local sch lo) xs"
proof (induction xs arbitrary: l r)
  case Nil
  then show ?case by simp
next
  case (Cons x xs)
  from Cons.prems obtain s where s: "sch (path x) = Inr s"
    by (cases "sch (path x)") simp_all
  consider (bare) "lib_type x = ''jar''" "s = []"
    | (filescheme) "lib_type x = ''jar''" "s \<noteq> []" "lower s = ''file''"
    | (other) "\<not> (lib_type x = ''jar'' \<and> s = [])" "\<not> (lib_type x = ''jar'' \<and> lower s = ''file'')"
    by blast
  then show ?case
  proof cases
    case bare
    with s have loc: "is_local sch x" and ex: "extract_local_path sch x = x"
      by (simp_all add: is_local_def extract_local_path_def)
    from Cons.prems s bare have "partition_loop sch xs (l @ [x]) r = Inr (loc, rest)"
      by simp
    from Cons.IH [OF this] loc ex show ?thesis by simp
  next
    case filescheme
    with s have loc: "is_local sch x"
      and ex: "extract_local_path sch x = LibraryObject (lib_type x) (drop 5 (path x))"
      by (simp_all add: is_local_def extract_local_path_def)
    from Cons.prems s filescheme
    have "partition_loop sch xs (l @ [LibraryObject (lib_type x) (drop 5 (path x))]) r = Inr (loc, rest)"
      by (simp split: if_splits)
    from Cons.IH [OF this] loc ex show ?thesis by simp
  next
    case other
    with s have loc: "\<not> is_local sch x"
      by (auto simp: is_local_def)
    from Cons.prems s other have "partition_loop sch xs l (r @ [x]) = Inr (loc, rest)"
      by (simp split: if_splits)
    from Cons.IH [OF this] loc show ?thesis by simp
  qed
qed

lemma partition_loop_append:
  "partition_loop sch (xs @ ys) l r =
     (case partition_loop sch xs l r of Inl e \<Rightarrow> Inl e | Inr (l', r') \<Rightarrow> partition_loop sch ys l' r')"
  by (induction xs arbitrary: l r) (simp_all split: sum.splits)

lemma partition_loop_malformed:
  assumes "lib_type lo = ''jar''" "sch (path lo) = Inr s" "lower s = ''file''"
    and "startswith (drop 4 (path lo)) '':////''"
  shows "partition_loop sch (lo # post) l r = Inl InvalidPathError"
proof -
  from assms(3) have "s \<noteq> []" by (auto simp: lower_def)
  with assms show ?thesis by (simp add: InvalidPathError_def)
qed

lemma partition_loop_file:
  assumes "lib_type lo = ''jar''" "sch (path lo) = Inr s" "lower s = ''file''"
    and "\<not> startswith (drop 4 (path lo)) '':////''"
  shows "partition_loop sch (lo # post) l r =
           partition_loop sch post (l @ [LibraryObject ''jar'' (drop 5 (path lo))]) r"
proof -
  from assms(3) have "s \<noteq> []" by (auto simp: lower_def)
  with assms show ?thesis by simp
qed


text \<open>The scheme that the function of CPython 3.11 gives for the paths of the examples.\<close>

lemma example_schemes:
  "example_urlsplit_scheme ''file:///tmp/a.jar'' = Inr ''file''"
  "example_urlsplit_scheme ''file:/a.jar'' = Inr ''file''"
  "example_urlsplit_scheme ''file:/tmp/b.jar'' = Inr ''file''"
  "example_urlsplit_scheme ''file:////tmp/a.jar'' = Inr ''file''"
  "example_urlsplit_scheme '' file:/a.jar'' = Inr ''file''"
  "example_urlsplit_scheme ''/tmp/a.jar'' = Inr []"
  "example_urlsplit_scheme ''/tmp/b.jar'' = Inr []"
  "example_urlsplit_scheme ''/tmp/c.jar'' = Inr []"
  "example_urlsplit_scheme ''s3://bucket/c.jar'' = Inr ''s3''"
  "example_urlsplit_scheme ''dbfs:/x.whl'' = Inr ''dbfs''"
  by (simp_all add: example_urlsplit_scheme_def cpython_urlsplit_scheme_def netloc_check_def
      splitnetloc_def scheme_chars_def lower_def lower_char_def lstrip_c0_control_or_space_def
      remove_unsafe_bytes_def first_isascii_isalpha_def isascii_isalpha_def Let_def)

text \<open>
  Four paths on which releases of the standard library differ: a scheme followed by
  digits only, a scheme that begins with a digit, and a bracketed host, which is handed
  to \<^verbatim>\<open>_check_bracketed_host\<close>, or not closed.
\<close>

lemma cpython_schemes:
  "cpython_urlsplit_scheme check_bracketed_host ''file:123'' = Inr ''file''"
  "cpython_urlsplit_scheme check_bracketed_host ''1file:/a.jar'' = Inr []"
  "cpython_urlsplit_scheme check_bracketed_host ''file://[abc]/a.jar''
     = (case check_bracketed_host ''abc'' of Some e \<Rightarrow> Inl e | None \<Rightarrow> Inr ''file'')"
  "cpython_urlsplit_scheme check_bracketed_host ''//[abc'' = Inl (ValueError ''Invalid IPv6 URL'')"
  by (simp_all add: cpython_urlsplit_scheme_def netloc_check_def bracketed_host_def
      splitnetloc_def scheme_chars_def lower_def lower_char_def lstrip_c0_control_or_space_def
      remove_unsafe_bytes_def first_isascii_isalpha_def isascii_isalpha_def Let_def)

lemma lower_file: "lower ''file'' = ''file''"
  by (simp add: lower_def lower_char_def)

text \<open>
  Claim C2, as stated, at its own example: the module takes \<^verbatim>\<open>lib_object.path[5:]\<close>,
  which removes the five characters \<^verbatim>\<open>file:\<close> and keeps every slash after them, so
  \<^verbatim>\<open>file:///tmp/a.jar\<close> becomes \<^verbatim>\<open>///tmp/a.jar\<close> and not \<^verbatim>\<open>/tmp/a.jar\<close>.
\<close>

theorem file_stripping_counterexample:
  "partition_libraries_and_extract_local_paths example_urlsplit_scheme
     [LibraryObject ''jar'' ''file:///tmp/a.jar'']
     = Inr ([LibraryObject ''jar'' ''///tmp/a.jar''], []) \<and>
   partition_libraries_and_extract_local_paths example_urlsplit_scheme
     [LibraryObject ''jar'' ''file:///tmp/a.jar'']
     \<noteq> Inr ([LibraryObject ''jar'' ''/tmp/a.jar''], [])"
  by (simp add: partition_libraries_and_extract_local_paths_def LibraryObject_def
      example_schemes lower_file startswith_def)

text \<open>
  Claim C2, amended. A reference of type \<^verbatim>\<open>jar\<close> for whose path \<^verbatim>\<open>urlsplit\<close> returns the
  scheme \<^verbatim>\<open>file\<close> (in any case), and whose path from index 4 on does not begin with
  \<^verbatim>\<open>:////\<close>, is placed in the local list with the first five characters of its path
  removed and every character after them kept. The same holds at any position of a
  longer list: the loop goes on with that object appended to the local list. This is
  so whatever function \<^verbatim>\<open>urlsplit\<close> is.
\<close>

theorem file_scheme_strips_five_characters:
  assumes "lib_type lo = ''jar''"
    and "urlsplit_scheme (path lo) = Inr s"
    and "lower s = ''file''"
    and "\<not> startswith (drop 4 (path lo)) '':////''"
  shows "partition_libraries_and_extract_local_paths urlsplit_scheme [lo]
           = Inr ([LibraryObject ''jar'' (drop 5 (path lo))], []) \<and>
         partition_loop urlsplit_scheme (lo # los) l r
           = partition_loop urlsplit_scheme los (l @ [LibraryObject ''jar'' (drop 5 (path lo))]) r"
proof -
  have step: "partition_loop urlsplit_scheme (lo # post) l' r'
      = partition_loop urlsplit_scheme post (l' @ [LibraryObject ''jar'' (drop 5 (path lo))]) r'"
    for post l' r'
    using assms by (rule partition_loop_file)
  have "partition_libraries_and_extract_local_paths urlsplit_scheme [lo]
      = Inr ([LibraryObject ''jar'' (drop 5 (path lo))], [])"
    by (simp only: partition_libraries_and_extract_local_paths_def step partition_loop.simps(1) append_Nil)
  with step show ?thesis by simp
qed

theorem file_scheme_strips_five_characters_witness:
  "partition_libraries_and_extract_local_paths example_urlsplit_scheme
     [LibraryObject ''jar'' ''file:///tmp/a.jar'']
     = Inr ([LibraryObject ''jar'' ''///tmp/a.jar''], []) \<and>
   partition_libraries_and_extract_local_paths example_urlsplit_scheme
     [LibraryObject ''jar'' '' file:/a.jar'']
     = Inr ([LibraryObject ''jar'' '':/a.jar''], [])"
proof -
  let ?lo = "LibraryObject ''jar'' ''file:///tmp/a.jar''"
  let ?sp = "LibraryObject ''jar'' '' file:/a.jar''"
  have h1: "lib_type ?lo = ''jar''" "lib_type ?sp = ''jar''" by (simp_all add: LibraryObject_def)
  have h2: "example_urlsplit_scheme (path ?lo) = Inr ''file''"
    "example_urlsplit_scheme (path ?sp) = Inr ''file''"
    by (simp_all add: LibraryObject_def example_schemes)
  have h4: "\<not> startswith (drop 4 (path ?lo)) '':////''" "\<not> startswith (drop 4 (path ?sp)) '':////''"
    by (simp_all add: LibraryObject_def startswith_def)
  from file_scheme_strips_five_characters [where urlsplit_scheme = example_urlsplit_scheme
        and lo = ?lo and los = "[]" and l = "[]" and r = "[]", OF h1(1) h2(1) lower_file h4(1)]
    file_scheme_strips_five_characters [where urlsplit_scheme = example_urlsplit_scheme
        and lo = ?sp and los = "[]" and l = "[]" and r = "[]", OF h1(2) h2(2) lower_file h4(2)]
  show ?thesis by (simp add: LibraryObject_def)
qed

text \<open>
  Claim C3. When the partition succeeds, every input reference is placed in exactly one
  of the two output lists, in input order. The remote list is the sublist of the input
  references that are not local, unchanged; the local list is the sublist of the local
  references, each as the loop appends it: unchanged when its path has no scheme, and
  with the first five characters of its path removed when its scheme is \<^verbatim>\<open>file\<close>. The
  two lengths add up to the length of the input. This is so whatever function
  \<^verbatim>\<open>urlsplit\<close> is.
\<close>

theorem partition_places_each_once:
  assumes "partition_libraries_and_extract_local_paths urlsplit_scheme lib_objects
             = Inr (local_lib_objects, rest_lib_objects)"
  shows "local_lib_objects
           = map (extract_local_path urlsplit_scheme) (filter (is_local urlsplit_scheme) lib_objects) \<and>
         rest_lib_objects = filter (\<lambda>lo. \<not> is_local urlsplit_scheme lo) lib_objects \<and>
         length local_lib_objects + length rest_lib_objects = length lib_objects"
proof -
  from assms
  have "partition_loop urlsplit_scheme lib_objects [] [] = Inr (local_lib_objects, rest_lib_objects)"
    by (simp add: partition_libraries_and_extract_local_paths_def)
  from partition_loop_Inr [OF this]
  have l: "local_lib_objects
      = map (extract_local_path urlsplit_scheme) (filter (is_local urlsplit_scheme) lib_objects)"
    and r: "rest_lib_objects = filter (\<lambda>lo. \<not> is_local urlsplit_scheme lo) lib_objects"
    by simp_all
  have "length (filter (is_local urlsplit_scheme) lib_objects)
      + length (filter (\<lambda>lo. \<not> is_local urlsplit_scheme lo) lib_objects)
      = length lib_objects"
    by (rule sum_length_filter_compl)
  with l r show ?thesis by simp
qed

theorem partition_places_each_once_witness:
  "partition_libraries_and_extract_local_paths example_urlsplit_scheme
     [LibraryObject ''jar'' ''file:/a.jar'', LibraryObject ''jar'' ''s3://bucket/c.jar'',
      LibraryObject ''jar'' ''/tmp/b.jar'', LibraryObject ''whl'' ''/tmp/b.jar'']
     = Inr ([LibraryObject ''jar'' ''/a.jar'', LibraryObject ''jar'' ''/tmp/b.jar''],
            [LibraryObject ''jar'' ''s3://bucket/c.jar'', LibraryObject ''whl'' ''/tmp/b.jar'']) \<and>
   [LibraryObject ''jar'' ''/a.jar'', LibraryObject ''jar'' ''/tmp/b.jar'']
     = map (extract_local_path example_urlsplit_scheme) (filter (is_local example_urlsplit_scheme)
         [LibraryObject ''jar'' ''file:/a.jar'', LibraryObject ''jar'' ''s3://bucket/c.jar'',
          LibraryObject ''jar'' ''/tmp/b.jar'', LibraryObject ''whl'' ''/tmp/b.jar'']) \<and>
   [LibraryObject ''jar'' ''s3://bucket/c.jar'', LibraryObject ''whl'' ''/tmp/b.jar'']
     = filter (\<lambda>lo. \<not> is_local example_urlsplit_scheme lo)
         [LibraryObject ''jar'' ''file:/a.jar'', LibraryObject ''jar'' ''s3://bucket/c.jar'',
          LibraryObject ''jar'' ''/tmp/b.jar'', LibraryObject ''whl'' ''/tmp/b.jar'']"
proof -
  have run: "partition_libraries_and_extract_local_paths example_urlsplit_scheme
     [LibraryObject ''jar'' ''file:/a.jar'', LibraryObject ''jar'' ''s3://bucket/c.jar'',
      LibraryObject ''jar'' ''/tmp/b.jar'', LibraryObject ''whl'' ''/tmp/b.jar'']
     = Inr ([LibraryObject ''jar'' ''/a.jar'', LibraryObject ''jar'' ''/tmp/b.jar''],
            [LibraryObject ''jar'' ''s3://bucket/c.jar'', LibraryObject ''whl'' ''/tmp/b.jar''])"
    by (simp add: partition_libraries_and_extract_local_paths_def LibraryObject_def
        example_schemes lower_file startswith_def lower_def lower_char_def)
  from partition_places_each_once [OF run] run show ?thesis by simp
qed

text \<open>
  Claim C7. A reference of type \<^verbatim>\<open>jar\<close> with scheme \<^verbatim>\<open>file\<close> whose path from index 4
  on begins with \<^verbatim>\<open>:////\<close> makes the partition fail with the error the specification
  calls \<open>InvalidPathError\<close>: alone, and after any references that are themselves
  partitioned without error; wherever it stands in the input, no partition is returned.
\<close>

theorem malformed_file_uri_rejected:
  assumes "lib_type lo = ''jar''"
    and "urlsplit_scheme (path lo) = Inr s"
    and "lower s = ''file''"
    and "startswith (drop 4 (path lo)) '':////''"
  shows "partition_libraries_and_extract_local_paths urlsplit_scheme [lo] = Inl InvalidPathError \<and>
         isl (partition_libraries_and_extract_local_paths urlsplit_scheme (before @ lo # after)) \<and>
         (\<not> isl (partition_libraries_and_extract_local_paths urlsplit_scheme before) \<longrightarrow>
            partition_libraries_and_extract_local_paths urlsplit_scheme (before @ lo # after)
              = Inl InvalidPathError)"
proof -
  have bad: "partition_loop urlsplit_scheme (lo # post) l r = Inl InvalidPathError" for post l r
    using assms by (rule partition_loop_malformed)
  have one: "partition_libraries_and_extract_local_paths urlsplit_scheme [lo] = Inl InvalidPathError"
    by (simp only: partition_libraries_and_extract_local_paths_def bad)
  have app: "partition_loop urlsplit_scheme (before @ lo # after) [] [] =
      (case partition_loop urlsplit_scheme before [] [] of Inl e \<Rightarrow> Inl e
       | Inr (l', r') \<Rightarrow> partition_loop urlsplit_scheme (lo # after) l' r')"
    by (rule partition_loop_append)
  have fails: "isl (partition_libraries_and_extract_local_paths urlsplit_scheme (before @ lo # after))"
  proof (cases "partition_loop urlsplit_scheme before [] []")
    case (Inl e)
    with app show ?thesis
      by (simp add: partition_libraries_and_extract_local_paths_def del: partition_loop.simps)
  next
    case (Inr p)
    with app bad show ?thesis
      by (cases p) (simp add: partition_libraries_and_extract_local_paths_def del: partition_loop.simps)
  qed
  have after_ok: "\<not> isl (partition_libraries_and_extract_local_paths urlsplit_scheme before) \<longrightarrow>
      partition_libraries_and_extract_local_paths urlsplit_scheme (before @ lo # after)
        = Inl InvalidPathError"
  proof (cases "partition_loop urlsplit_scheme before [] []")
    case (Inl e)
    then show ?thesis
      by (simp add: partition_libraries_and_extract_local_paths_def)
  next
    case (Inr p)
    with app bad show ?thesis
      by (cases p) (simp add: partition_libraries_and_extract_local_paths_def del: partition_loop.simps)
  qed
  from one fails after_ok show ?thesis by blast
qed

theorem malformed_file_uri_rejected_witness:
  "partition_libraries_and_extract_local_paths example_urlsplit_scheme
     [LibraryObject ''jar'' ''file:////tmp/a.jar'']
     = Inl (RuntimeError ''Invalid file uri scheme'') \<and>
   partition_libraries_and_extract_local_paths example_urlsplit_scheme
     ([LibraryObject ''jar'' ''/tmp/b.jar''] @ LibraryObject ''jar'' ''file:////tmp/a.jar''
        # [LibraryObject ''whl'' ''/tmp/b.jar''])
     = Inl (RuntimeError ''Invalid file uri scheme'')"
proof -
  let ?lo = "LibraryObject ''jar'' ''file:////tmp/a.jar''"
  have h1: "lib_type ?lo = ''jar''" by (simp add: LibraryObject_def)
  have h2: "example_urlsplit_scheme (path ?lo) = Inr ''file''"
    by (simp add: LibraryObject_def example_schemes)
  have h4: "startswith (drop 4 (path ?lo)) '':////''"
    by (simp add: LibraryObject_def startswith_def)
  have ok: "\<not> isl (partition_libraries_and_extract_local_paths example_urlsplit_scheme
      [LibraryObject ''jar'' ''/tmp/b.jar''])"
    by (simp add: partition_libraries_and_extract_local_paths_def LibraryObject_def example_schemes)
  from malformed_file_uri_rejected [where urlsplit_scheme = example_urlsplit_scheme and lo = ?lo
        and before = "[LibraryObject ''jar'' ''/tmp/b.jar'']"
        and after = "[LibraryObject ''whl'' ''/tmp/b.jar'']", OF h1 h2 lower_file h4] ok
  show ?thesis by (simp add: InvalidPathError_def)
qed

section \<open>Properties of the credentials\<close>

text \<open>
  Claim C9. When the resolved configuration is valid, the credentials are a dictionary
  whose keys are either \<^verbatim>\<open>token\<close> alone or \<^verbatim>\<open>user\<close> and \<^verbatim>\<open>password\<close>, one shape and
  not the other, chosen by \<^verbatim>\<open>is_valid_with_token\<close>; when the resolved configuration is
  absent or not valid, the function fails with \<^verbatim>\<open>InvalidConfigurationError\<close>.
\<close>

theorem credential_shape_exclusive:
  "(resolve_config cenv = Inr (Some config) \<and> is_valid config \<longrightarrow>
      (\<exists>creds. get_credentials_for_request cenv = Inr creds \<and>
         ((map fst creds = [''token'']) \<noteq> (map fst creds = [''user'', ''password''])) \<and>
         (is_valid_with_token config \<longrightarrow> creds = [(''token'', token config)]) \<and>
         (\<not> is_valid_with_token config \<longrightarrow>
            creds = [(''user'', username config), (''password'', password config)]))) \<and>
   (resolve_config cenv = Inr None \<or> (resolve_config cenv = Inr (Some config) \<and> \<not> is_valid config) \<longrightarrow>
      (\<exists>e. get_credentials_for_request cenv = Inl e \<and> ConfigurationError e))"
  by (auto simp: get_credentials_for_request_def ConfigurationError_def)

theorem credential_shape_exclusive_witness:
  "get_credentials_for_request (default_env (Some token_config)) = Inr [(''token'', Some ''dapi123'')] \<and>
   get_credentials_for_request (profile_env ''staging'' (Some password_config))
     = Inr [(''user'', Some ''alice''), (''password'', Some ''secret'')] \<and>
   get_credentials_for_request (default_env (Some invalid_config)) = Inl (InvalidConfigurationError None) \<and>
   get_credentials_for_request (profile_env ''staging'' None)
     = Inl (InvalidConfigurationError (Some ''staging''))"
proof -
  have r1: "resolve_config (default_env (Some token_config)) = Inr (Some token_config)"
    and v1: "is_valid token_config" "is_valid_with_token token_config"
    by (simp_all add: resolve_config_def default_env_def token_config_def)
  have r2: "resolve_config (profile_env ''staging'' (Some password_config)) = Inr (Some password_config)"
    and v2: "is_valid password_config" "\<not> is_valid_with_token password_config"
    by (simp_all add: resolve_config_def profile_env_def password_config_def)
  have r3: "resolve_config (default_env (Some invalid_config)) = Inr (Some invalid_config)"
    and v3: "\<not> is_valid invalid_config"
    by (simp_all add: resolve_config_def default_env_def invalid_config_def)
  have r4: "resolve_config (profile_env ''staging'' None) = Inr None"
    by (simp add: resolve_config_def profile_env_def)
  from credential_shape_exclusive [of "default_env (Some token_config)" token_config] r1 v1
  have c1: "get_credentials_for_request (default_env (Some token_config)) = Inr [(''token'', Some ''dapi123'')]"
    by (auto simp: token_config_def)
  from credential_shape_exclusive [of "profile_env ''staging'' (Some password_config)" password_config] r2 v2
  have c2: "get_credentials_for_request (profile_env ''staging'' (Some password_config))
     = Inr [(''user'', Some ''alice''), (''password'', Some ''secret'')]"
    by (auto simp: password_config_def)
  from credential_shape_exclusive [of "default_env (Some invalid_config)" invalid_config] r3 v3
  have c3: "get_credentials_for_request (default_env (Some invalid_config)) = Inl (InvalidConfigurationError None)"
    by (auto simp: get_credentials_for_request_def default_env_def)
  from credential_shape_exclusive [of "profile_env ''staging'' None" invalid_config] r4
  have c4: "get_credentials_for_request (profile_env ''staging'' None)
     = Inl (InvalidConfigurationError (Some ''staging''))"
    by (auto simp: get_credentials_for_request_def profile_env_def)
  from c1 c2 c3 c4 show ?thesis by simp
qed

section \<open>Properties of the content hash and the remote path\<close>

text \<open>The model of SHA-1 on the test vectors of the standard.\<close>

lemma sha1_empty: "sha1_hexdigest [] = ''da39a3ee5e6b4b0d3255bfef95601890afd80709''"
  by code_simp

lemma sha1_abc:
  "sha1_hexdigest [0x61, 0x62, 0x63] = ''a9993e364706816aba3e25717850c26c9cd0d89d''"
  by code_simp

text \<open>
  The third vector is the 56-byte message of the standard's second example
  (\<^verbatim>\<open>abcdbcdecdef...nopq\<close>), which needs two blocks.
\<close>

lemma sha1_two_blocks:
  "sha1_hexdigest
     [0x61, 0x62, 0x63, 0x64, 0x62, 0x63, 0x64, 0x65, 0x63, 0x64, 0x65, 0x66,
      0x64, 0x65, 0x66, 0x67, 0x65, 0x66, 0x67, 0x68, 0x66, 0x67, 0x68, 0x69,
      0x67, 0x68, 0x69, 0x6a, 0x68, 0x69, 0x6a, 0x6b, 0x69, 0x6a, 0x6b, 0x6c,
      0x6a, 0x6b, 0x6c, 0x6d, 0x6b, 0x6c, 0x6d, 0x6e, 0x6c, 0x6d, 0x6e, 0x6f,
      0x6d, 0x6e, 0x6f, 0x70, 0x6e, 0x6f, 0x70, 0x71]
   = ''84983e441c3bd26ebaae4aa1f95129e5e54670f1''"
  by code_simp

lemma read_loop_eq: "read_loop f hash_buffer = hash_buffer @ f"
proof (induction f hash_buffer rule: read_loop.induct)
  case (1 f hash_buffer)
  show ?case
  proof (cases "take BUFFER_SIZE f = []")
    case True
    then have "f = []" by (simp add: BUFFER_SIZE_def)
    then show ?thesis by (subst read_loop.simps) simp
  next
    case False
    have "read_loop f hash_buffer
        = read_loop (drop BUFFER_SIZE f) (update hash_buffer (take BUFFER_SIZE f))"
      using False by (subst read_loop.simps) simp
    also have "\<dots> = update hash_buffer (take BUFFER_SIZE f) @ drop BUFFER_SIZE f"
      using False by (rule "1.IH")
    also have "\<dots> = hash_buffer @ f"
      by (simp add: update_def)
    finally show ?thesis .
  qed
qed

lemma get_hashed_path_readable:
  "open_rb local_path = Inr f \<Longrightarrow>
     get_hashed_path open_rb local_path
       = Inr (base_pipelines_dir @ sha1_hexdigest f @ splitext_ext local_path)"
  by (simp add: get_hashed_path_def read_loop_eq hexdigest_def sha1_def)

lemma hex_digit_lower: "hex_digit n \<in> set ''0123456789abcdef''"
  unfolding hex_digit_def by (rule nth_mem) simp

lemma hex_word_lower: "length (hex_word w) = 8 \<and> list_all (\<lambda>c. c \<in> set ''0123456789abcdef'') (hex_word w)"
  unfolding hex_word_def list_all_iff using hex_digit_lower by auto

lemma sha1_hexdigest_lower:
  "length (sha1_hexdigest msg) = 40 \<and>
   list_all (\<lambda>c. c \<in> set ''0123456789abcdef'') (sha1_hexdigest msg)"
proof -
  obtain h0 h1 h2 h3 h4 where
    "blocks (0x67452301, 0xEFCDAB89, 0x98BADCFE, 0x10325476, 0xC3D2E1F0) (sha1_pad (map uint msg))
       = (h0, h1, h2, h3, h4)"
    by (metis prod_cases5)
  then have "sha1_hexdigest msg = hex_word h0 @ hex_word h1 @ hex_word h2 @ hex_word h3 @ hex_word h4"
    by (simp add: sha1_hexdigest_def)
  then show ?thesis using hex_word_lower by simp
qed

lemma splitext_loop_eq:
  "filenameIndex \<le> dotIndex \<Longrightarrow> dotIndex \<le> length p \<Longrightarrow>
     splitext_loop p filenameIndex dotIndex =
       (if list_ex (\<lambda>c. c \<noteq> CHR ''.'') (take (dotIndex - filenameIndex) (drop filenameIndex p))
        then drop dotIndex p else [])"
proof (induction p filenameIndex dotIndex rule: splitext_loop.induct)
  case (1 p i j)
  show ?case
  proof (cases "i < j")
    case False
    then show ?thesis by (subst splitext_loop.simps) simp
  next
    case True
    with "1.prems" have len: "i < length p" by simp
    then have d: "drop i p = p ! i # drop (Suc i) p"
      by (simp add: Cons_nth_drop_Suc)
    from True have t: "j - i = Suc (j - Suc i)" by simp
    show ?thesis
    proof (cases "p ! i = CHR ''.''")
      case False
      then show ?thesis using True d t
        by (subst splitext_loop.simps) simp
    next
      case dot: True
      have "splitext_loop p i j = splitext_loop p (Suc i) j"
        using True d dot by (subst splitext_loop.simps) simp
      also have "\<dots> = (if list_ex (\<lambda>c. c \<noteq> CHR ''.'') (take (j - Suc i) (drop (Suc i) p))
                         then drop j p else [])"
        using True d dot "1.prems" by (intro "1.IH") simp_all
      finally show ?thesis using d t dot by simp
    qed
  qed
qed

lemma path_split:
  "p = rev (dropWhile (\<lambda>c. c \<noteq> CHR ''/'') (rev p)) @ final_segment p"
proof -
  let ?Q = "\<lambda>c. c \<noteq> CHR ''/''"
  have "p = rev (takeWhile ?Q (rev p) @ dropWhile ?Q (rev p))"
    by (simp only: takeWhile_dropWhile_id rev_rev_ident)
  also have "\<dots> = rev (dropWhile ?Q (rev p)) @ rev (takeWhile ?Q (rev p))"
    by (rule rev_append)
  finally show ?thesis by (simp only: final_segment_def)
qed

lemma final_segment_no_sep: "CHR ''/'' \<notin> set (final_segment p)"
proof
  assume "CHR ''/'' \<in> set (final_segment p)"
  then have "CHR ''/'' \<in> set (takeWhile (\<lambda>c. c \<noteq> CHR ''/'') (rev p))"
    by (simp add: final_segment_def)
  then show False by (auto dest: set_takeWhileD)
qed

lemma rfind_sep:
  "rfind CHR ''/'' p = int (length (rev (dropWhile (\<lambda>c. c \<noteq> CHR ''/'') (rev p)))) - 1"
proof (cases "CHR ''/'' \<in> set p")
  case True
  have "length (takeWhile (\<lambda>c. c \<noteq> CHR ''/'') (rev p)) + length (dropWhile (\<lambda>c. c \<noteq> CHR ''/'') (rev p))
      = length p"
    by (metis length_append length_rev takeWhile_dropWhile_id)
  with True show ?thesis by (simp add: rfind_def)
next
  case False
  then have "dropWhile (\<lambda>c. c \<noteq> CHR ''/'') (rev p) = []"
    by auto
  with False show ?thesis by (simp add: rfind_def)
qed

lemma segment_split:
  assumes "CHR ''.'' \<in> set (final_segment p)"
  shows "final_segment p = stem p @ spec_extension p"
    and "spec_extension p = CHR ''.'' # rev (takeWhile (\<lambda>c. c \<noteq> CHR ''.'') (rev (final_segment p)))"
proof -
  let ?seg = "final_segment p"
  let ?P = "\<lambda>c. c \<noteq> CHR ''.''"
  from assms have ne: "dropWhile ?P (rev ?seg) \<noteq> []"
    by auto
  have "\<exists>t. dropWhile ?P (rev ?seg) = CHR ''.'' # t"
  proof (cases "dropWhile ?P (rev ?seg)")
    case Nil
    with ne show ?thesis by simp
  next
    case (Cons a t)
    with hd_dropWhile [OF ne] show ?thesis by simp
  qed
  then obtain t where t: "dropWhile ?P (rev ?seg) = CHR ''.'' # t" ..
  have "rev ?seg = takeWhile ?P (rev ?seg) @ dropWhile ?P (rev ?seg)"
    by simp
  with t have "rev ?seg = takeWhile ?P (rev ?seg) @ CHR ''.'' # t" by simp
  then have "rev (rev ?seg) = rev (takeWhile ?P (rev ?seg) @ CHR ''.'' # t)" by simp
  then have seg: "?seg = rev t @ CHR ''.'' # rev (takeWhile ?P (rev ?seg))" by simp
  from t have st: "stem p = rev t" by (simp add: stem_def)
  from assms show ext: "spec_extension p = CHR ''.'' # rev (takeWhile ?P (rev ?seg))"
    by (simp add: spec_extension_def)
  from seg st ext show "?seg = stem p @ spec_extension p" by simp
qed

lemma rfind_dot_in_segment:
  assumes "CHR ''.'' \<in> set (final_segment p)"
  shows "rfind CHR ''.'' p
       = int (length (rev (dropWhile (\<lambda>c. c \<noteq> CHR ''/'') (rev p)))) + int (length (stem p))"
proof -
  let ?d = "rev (dropWhile (\<lambda>c. c \<noteq> CHR ''/'') (rev p))"
  let ?seg = "final_segment p"
  let ?P = "\<lambda>c. c \<noteq> CHR ''.''"
  have p: "p = ?d @ ?seg" by (rule path_split)
  then have inp: "CHR ''.'' \<in> set p" using assms
    by (metis Un_iff set_append)
  have "rev p = rev ?seg @ rev ?d" using p by (metis rev_append)
  moreover have "takeWhile ?P (rev ?seg @ rev ?d) = takeWhile ?P (rev ?seg)"
    using assms by (intro takeWhile_append1 [where x = "CHR ''.''"]) simp_all
  ultimately have tw: "takeWhile ?P (rev p) = takeWhile ?P (rev ?seg)" by simp
  from segment_split [OF assms]
  have "length ?seg = length (stem p) + 1 + length (takeWhile ?P (rev ?seg))"
    by (metis One_nat_def add.assoc length_append length_rev list.size(4) plus_1_eq_Suc add.commute)
  moreover have "length p = length ?d + length ?seg" using p by (metis length_append)
  ultimately show ?thesis using inp tw by (simp add: rfind_def)
qed

lemma splitext_ext_dot:
  assumes "CHR ''.'' \<in> set (final_segment p)"
  shows "splitext_ext p = (if list_ex (\<lambda>c. c \<noteq> CHR ''.'') (stem p) then spec_extension p else [])"
proof -
  let ?d = "rev (dropWhile (\<lambda>c. c \<noteq> CHR ''/'') (rev p))"
  have p: "p = ?d @ stem p @ spec_extension p"
    using path_split [of p] segment_split(1) [OF assms] by simp
  have sep: "rfind CHR ''/'' p = int (length ?d) - 1" by (rule rfind_sep)
  have dot: "rfind CHR ''.'' p = int (length ?d) + int (length (stem p))"
    using assms by (rule rfind_dot_in_segment)
  have "splitext_ext p = splitext_loop p (length ?d) (length ?d + length (stem p))"
    by (simp add: splitext_ext_def sep dot Let_def nat_add_distrib)
  also have "\<dots> = (if list_ex (\<lambda>c. c \<noteq> CHR ''.'')
                        (take (length ?d + length (stem p) - length ?d) (drop (length ?d) p))
                     then drop (length ?d + length (stem p)) p else [])"
  proof (rule splitext_loop_eq)
    show "length ?d \<le> length ?d + length (stem p)" by simp
    have "length p = length ?d + length (stem p) + length (spec_extension p)"
      using p by (metis length_append add.assoc)
    then show "length ?d + length (stem p) \<le> length p" by simp
  qed
  also have "take (length ?d + length (stem p) - length ?d) (drop (length ?d) p) = stem p"
  proof -
    have "drop (length ?d) p = stem p @ spec_extension p"
      using p by (metis append_eq_conv_conj)
    then show ?thesis by simp
  qed
  also have "drop (length ?d + length (stem p)) p = spec_extension p"
  proof -
    have "p = (?d @ stem p) @ spec_extension p" using p by simp
    then show ?thesis by (metis append_eq_conv_conj length_append)
  qed
  finally show ?thesis .
qed

lemma splitext_ext_no_dot:
  assumes "CHR ''.'' \<notin> set (final_segment p)"
  shows "splitext_ext p = []" and "spec_extension p = []" and "stem p = []"
proof -
  let ?Q = "\<lambda>c. c \<noteq> CHR ''/''"
  let ?P = "\<lambda>c. c \<noteq> CHR ''.''"
  let ?d = "rev (dropWhile ?Q (rev p))"
  let ?seg = "final_segment p"
  from assms show "spec_extension p = []" by (simp add: spec_extension_def)
  from assms have dw: "dropWhile ?P (rev ?seg) = []"
    by auto
  show "stem p = []" unfolding stem_def dw by simp
  have sep: "rfind CHR ''/'' p = int (length ?d) - 1" by (rule rfind_sep)
  have "rfind CHR ''.'' p \<le> rfind CHR ''/'' p"
  proof (cases "CHR ''.'' \<in> set p")
    case False
    then show ?thesis by (simp add: rfind_def [of "CHR ''.''"] sep)
  next
    case True
    have p: "p = ?d @ ?seg" by (rule path_split)
    with True assms have ind: "CHR ''.'' \<in> set ?d"
      by (metis Un_iff set_append)
    have ne: "dropWhile ?Q (rev p) \<noteq> []"
    proof
      assume "dropWhile ?Q (rev p) = []"
      with ind show False by simp
    qed
    have "\<exists>t. dropWhile ?Q (rev p) = CHR ''/'' # t"
    proof (cases "dropWhile ?Q (rev p)")
      case Nil
      with ne show ?thesis by simp
    next
      case (Cons a t)
      with hd_dropWhile [OF ne] show ?thesis by simp
    qed
    then obtain t where t: "dropWhile ?Q (rev p) = CHR ''/'' # t" ..
    have "rev p = takeWhile ?Q (rev p) @ dropWhile ?Q (rev p)" by simp
    with t have rp: "rev p = rev ?seg @ CHR ''/'' # t"
      by (simp add: final_segment_def)
    have "takeWhile ?P (rev ?seg @ CHR ''/'' # t) = rev ?seg @ takeWhile ?P (CHR ''/'' # t)"
      using assms by (intro takeWhile_append2) auto
    with rp have "length (takeWhile ?P (rev p)) = length ?seg + 1 + length (takeWhile ?P t)"
      by simp
    moreover have "length p = length ?d + length ?seg" using p by (metis length_append)
    ultimately show ?thesis using True by (simp add: rfind_def [of "CHR ''.''"] sep)
  qed
  then show "splitext_ext p = []" by (simp add: splitext_ext_def Let_def)
qed

lemma splitext_ext_eq:
  "splitext_ext p = (if list_ex (\<lambda>c. c \<noteq> CHR ''.'') (stem p) then spec_extension p else [])"
proof (cases "CHR ''.'' \<in> set (final_segment p)")
  case True
  then show ?thesis by (rule splitext_ext_dot)
next
  case False
  from splitext_ext_no_dot [OF False] show ?thesis by simp
qed

text \<open>
  Claim C4, as stated, at a file whose name begins with its only dot: the claim's
  extension of \<^verbatim>\<open>/tmp/.hidden\<close> is \<^verbatim>\<open>.hidden\<close>, but \<^verbatim>\<open>os.path.splitext\<close> skips leading
  dots of the final segment and returns the empty extension, so the remote path is the
  root and the digest alone.
\<close>

theorem hidden_file_extension_counterexample:
  "get_hashed_path empty_files ''/tmp/.hidden''
     = Inr ''dbfs:/pipelines/code/da39a3ee5e6b4b0d3255bfef95601890afd80709'' \<and>
   spec_extension ''/tmp/.hidden'' = ''.hidden'' \<and>
   get_hashed_path empty_files ''/tmp/.hidden''
     \<noteq> Inr (base_pipelines_dir @ sha1_hexdigest [] @ spec_extension ''/tmp/.hidden'')"
proof -
  have ext: "spec_extension ''/tmp/.hidden'' = ''.hidden''"
    by (simp add: spec_extension_def final_segment_def)
  have "stem ''/tmp/.hidden'' = []"
    by (simp add: stem_def final_segment_def)
  then have "splitext_ext ''/tmp/.hidden'' = []"
    by (simp add: splitext_ext_eq)
  then have "get_hashed_path empty_files ''/tmp/.hidden''
      = Inr ''dbfs:/pipelines/code/da39a3ee5e6b4b0d3255bfef95601890afd80709''"
    by (simp add: get_hashed_path_readable [of empty_files _ "[]"] empty_files_def
        sha1_empty base_pipelines_dir_def)
  with ext show ?thesis by (simp add: sha1_empty base_pipelines_dir_def)
qed

text \<open>
  Claim C4, amended. For every readable local file the remote path is the root
  \<^verbatim>\<open>dbfs:/pipelines/code/\<close>, then the SHA-1 digest of the file's bytes as forty lowercase
  hexadecimal digits, then the extension. The loop that reads the file in chunks of
  64 KiB feeds the hash exactly the file's bytes; the empty file has the digest
  \<^verbatim>\<open>da39a3ee5e6b4b0d3255bfef95601890afd80709\<close>; two readable files with the same bytes
  have the same digest, and the same remote path when their extensions agree. The
  extension is the substring from the last dot of the final path segment, the dot
  included, provided a character other than a dot stands before that dot in the segment;
  it is empty otherwise (no dot in the segment, or nothing but dots before the last one).
\<close>

theorem hashed_path_of_readable_file:
  assumes "open_rb local_path = Inr f"
  shows "get_hashed_path open_rb local_path
           = Inr (base_pipelines_dir @ sha1_hexdigest f @ splitext_ext local_path) \<and>
         read_loop f sha1 = f \<and>
         length (sha1_hexdigest f) = 40 \<and>
         list_all (\<lambda>c. c \<in> set ''0123456789abcdef'') (sha1_hexdigest f) \<and>
         (f = [] \<longrightarrow> sha1_hexdigest f = ''da39a3ee5e6b4b0d3255bfef95601890afd80709'') \<and>
         splitext_ext local_path
           = (if list_ex (\<lambda>c. c \<noteq> CHR ''.'') (stem local_path) then spec_extension local_path else []) \<and>
         (open_rb other_path = Inr f \<and> splitext_ext other_path = splitext_ext local_path \<longrightarrow>
            get_hashed_path open_rb other_path = get_hashed_path open_rb local_path)"
proof -
  have path: "get_hashed_path open_rb local_path
      = Inr (base_pipelines_dir @ sha1_hexdigest f @ splitext_ext local_path)"
    using assms by (rule get_hashed_path_readable)
  have fed: "read_loop f sha1 = f"
    by (simp add: read_loop_eq sha1_def)
  have empty: "f = [] \<longrightarrow> sha1_hexdigest f = ''da39a3ee5e6b4b0d3255bfef95601890afd80709''"
    using sha1_empty by simp
  have ext: "splitext_ext local_path
      = (if list_ex (\<lambda>c. c \<noteq> CHR ''.'') (stem local_path) then spec_extension local_path else [])"
    by (rule splitext_ext_eq)
  have same: "open_rb other_path = Inr f \<and> splitext_ext other_path = splitext_ext local_path \<longrightarrow>
      get_hashed_path open_rb other_path = get_hashed_path open_rb local_path"
    using path by (simp add: get_hashed_path_readable)
  from path fed sha1_hexdigest_lower [of f] empty ext same show ?thesis by blast
qed

theorem hashed_path_of_readable_file_witness:
  "get_hashed_path empty_files ''/tmp/a.jar''
     = Inr ''dbfs:/pipelines/code/da39a3ee5e6b4b0d3255bfef95601890afd80709.jar'' \<and>
   get_hashed_path abc_files ''lib/app.tar.gz''
     = Inr ''dbfs:/pipelines/code/a9993e364706816aba3e25717850c26c9cd0d89d.gz'' \<and>
   get_hashed_path abc_files ''lib.d/app''
     = Inr ''dbfs:/pipelines/code/a9993e364706816aba3e25717850c26c9cd0d89d''"
proof -
  have o1: "empty_files ''/tmp/a.jar'' = Inr []" by (simp add: empty_files_def)
  have o2: "abc_files ''lib/app.tar.gz'' = Inr [0x61, 0x62, 0x63]" by (simp add: abc_files_def)
  have o3: "abc_files ''lib.d/app'' = Inr [0x61, 0x62, 0x63]" by (simp add: abc_files_def)
  have s1: "stem ''/tmp/a.jar'' = ''a''" "spec_extension ''/tmp/a.jar'' = ''.jar''"
    by (simp_all add: stem_def spec_extension_def final_segment_def)
  have s2: "stem ''lib/app.tar.gz'' = ''app.tar''" "spec_extension ''lib/app.tar.gz'' = ''.gz''"
    by (simp_all add: stem_def spec_extension_def final_segment_def)
  have s3: "stem ''lib.d/app'' = []" "spec_extension ''lib.d/app'' = []"
    by (simp_all add: stem_def spec_extension_def final_segment_def)
  from hashed_path_of_readable_file [where open_rb = empty_files and other_path = "''/tmp/a.jar''", OF o1] s1
  have w1: "get_hashed_path empty_files ''/tmp/a.jar''
      = Inr ''dbfs:/pipelines/code/da39a3ee5e6b4b0d3255bfef95601890afd80709.jar''"
    by (simp add: base_pipelines_dir_def)
  from hashed_path_of_readable_file [where open_rb = abc_files and other_path = "''lib/app.tar.gz''", OF o2] s2
  have w2: "get_hashed_path abc_files ''lib/app.tar.gz''
      = Inr ''dbfs:/pipelines/code/a9993e364706816aba3e25717850c26c9cd0d89d.gz''"
    by (simp add: base_pipelines_dir_def sha1_abc)
  from hashed_path_of_readable_file [where open_rb = abc_files and other_path = "''lib.d/app''", OF o3] s3
  have w3: "get_hashed_path abc_files ''lib.d/app''
      = Inr ''dbfs:/pipelines/code/a9993e364706816aba3e25717850c26c9cd0d89d''"
    by (simp add: base_pipelines_dir_def sha1_abc)
  from w1 w2 w3 show ?thesis by simp
qed

section \<open>Properties of the upload plan, the uploads and the deploy\<close>

lemma files_to_upload_loop_eq:
  "length local_lib_objects = length remote_lib_objects \<Longrightarrow>
   map (\<lambda>rlo. DbfsPath env (path rlo)) remote_lib_objects = map Inr dbfs_paths \<Longrightarrow>
   files_to_upload_loop env st local_lib_objects remote_lib_objects =
     (Inr (filter (\<lambda>(llo, rlo). \<not> file_exists env st (path rlo))
             (zip local_lib_objects (transformed_remote_lib_objects remote_lib_objects dbfs_paths))),
      dbfs_paths)"
proof (induction local_lib_objects remote_lib_objects arbitrary: dbfs_paths rule: list_induct2)
  case Nil
  then show ?case by (simp add: transformed_remote_lib_objects_def)
next
  case (Cons llo llos rlo rlos)
  from Cons.prems obtain dp dps where dps: "dbfs_paths = dp # dps"
    and dp: "DbfsPath env (path rlo) = Inr dp"
    and rest: "map (\<lambda>rlo. DbfsPath env (path rlo)) rlos = map Inr dps"
    by (cases dbfs_paths) auto
  from Cons.IH [OF rest] dp dps show ?case
    by (simp add: transformed_remote_lib_objects_def LibraryObject_def)
qed

lemma upload_loop_append:
  "upload_loop env w (before @ after) =
     (case upload_loop env w before of
        (Inl e, w1) \<Rightarrow> (Inl e, w1)
      | (Inr u, w1) \<Rightarrow> upload_loop env w1 after)"
proof (induction before arbitrary: w)
  case Nil
  then show ?case by simp
next
  case (Cons pair before)
  obtain llo rlo where pair: "pair = (llo, rlo)" by (cases pair)
  obtain raised st where put: "put_file env (store w) (path llo) (path rlo) False = (raised, st)"
    by (cases "put_file env (store w) (path llo) (path rlo) False")
  show ?case
  proof (cases raised)
    case None
    with pair put Cons.IH show ?thesis by (simp add: Let_def)
  next
    case (Some e)
    with pair put show ?thesis by (simp add: Let_def)
  qed
qed

lemma upload_loop_world:
  "upload_loop env w upload_files = (outcome, w') \<Longrightarrow>
     requests w' = requests w \<and> exists_queries w' = exists_queries w \<and>
     (\<exists>k \<le> length upload_files. put_calls w' = put_calls w @ map put_call (take k upload_files)) \<and>
     (outcome = Inr () \<longrightarrow> put_calls w' = put_calls w @ map put_call upload_files)"
proof (induction upload_files arbitrary: w)
  case Nil
  then show ?case by auto
next
  case (Cons pair upload_files)
  obtain llo rlo where pair: "pair = (llo, rlo)" by (cases pair)
  obtain raised st where put: "put_file env (store w) (path llo) (path rlo) False = (raised, st)"
    by (cases "put_file env (store w) (path llo) (path rlo) False")
  let ?w = "w\<lparr>store := st, put_calls := put_calls w @ [(path llo, path rlo, False)]\<rparr>"
  show ?case
  proof (cases raised)
    case (Some e)
    with pair put Cons.prems have "w' = ?w" and "outcome = Inl (UploadError e (path llo))"
      by (simp_all add: Let_def)
    moreover have "put_calls ?w = put_calls w @ map put_call (take 1 (pair # upload_files))"
      by (simp add: pair put_call_def)
    moreover have "(1::nat) \<le> length (pair # upload_files)" by simp
    ultimately show ?thesis
      by (intro conjI exI [of _ 1]) simp_all
  next
    case None
    with pair put Cons.prems have run: "upload_loop env ?w upload_files = (outcome, w')"
      by (simp add: Let_def)
    from Cons.IH [OF run] obtain k where k: "k \<le> length upload_files"
      and calls: "put_calls w' = put_calls ?w @ map put_call (take k upload_files)"
      and rq: "requests w' = requests ?w" "exists_queries w' = exists_queries ?w"
      and ok: "outcome = Inr () \<longrightarrow> put_calls w' = put_calls ?w @ map put_call upload_files"
      by blast
    have "put_calls w' = put_calls w @ map put_call (take (Suc k) (pair # upload_files))"
      using calls by (simp add: pair put_call_def)
    moreover have "Suc k \<le> length (pair # upload_files)" using k by simp
    moreover have "outcome = Inr () \<longrightarrow> put_calls w' = put_calls w @ map put_call (pair # upload_files)"
      using ok by (simp add: pair put_call_def)
    ultimately show ?thesis using rq by (intro conjI exI [of _ "Suc k"]) simp_all
  qed
qed

lemma get_files_to_upload_world:
  "get_files_to_upload env w local_lib_objects remote_lib_objects = (result, w') \<Longrightarrow>
     requests w' = requests w \<and> put_calls w' = put_calls w \<and> store w' = store w"
  by (auto simp: get_files_to_upload_def split: prod.splits)

lemma hashed_lib_objects_all2:
  "hashed_lib_objects open_rb local_lib_objects = Inr remote_lib_objects \<Longrightarrow>
     list_all2 (\<lambda>llo rlo. lib_type rlo = lib_type llo \<and> get_hashed_path open_rb (path llo) = Inr (path rlo))
       local_lib_objects remote_lib_objects"
proof (induction local_lib_objects arbitrary: remote_lib_objects)
  case Nil
  then show ?case by simp
next
  case (Cons llo llos)
  from Cons.prems obtain remote_path rlos where
    p: "get_hashed_path open_rb (path llo) = Inr remote_path"
    and r: "hashed_lib_objects open_rb llos = Inr rlos"
    and eq: "remote_lib_objects = LibraryObject (lib_type llo) remote_path # rlos"
    by (auto split: sum.splits)
  from Cons.IH [OF r] p eq show ?case by (simp add: LibraryObject_def)
qed

lemma deploy_after_uploads:
  assumes "partition_libraries_and_extract_local_paths urlsplit_scheme
             (convert_from_libraries (case libraries spec of None \<Rightarrow> [] | Some ls \<Rightarrow> ls))
           = Inr (local_lib_objects, rest_lib_objects)"
    and "hashed_lib_objects open_rb local_lib_objects = Inr remote_lib_objects"
    and "get_files_to_upload env w local_lib_objects remote_lib_objects = (Inr upload_files, w1)"
    and "upload_loop env w1 upload_files = (Inr (), w2)"
  shows "deploy urlsplit_scheme open_rb env cenv perform_query w spec hdrs =
     (case get_credentials_for_request cenv of
        Inl e \<Rightarrow> (Inl e, w2)
      | Inr creds \<Rightarrow>
          (case spec_id spec of
             None \<Rightarrow> (Inl (KeyError ''id''), w2)
           | Some pipeline_id \<Rightarrow>
               (case perform_query
                       \<lparr> http_method = ''PUT'', url_path = ''/pipelines/'' @ pipeline_id,
                         data = spec\<lparr>libraries := Some (convert_to_libraries (rest_lib_objects @ remote_lib_objects)),
                                     credentials := Some creds\<rparr>,
                         headers = hdrs \<rparr> of
                  Some e \<Rightarrow> Inl e
                | None \<Rightarrow> Inr (),
                w2\<lparr>requests := requests w2 @
                   [\<lparr> http_method = ''PUT'', url_path = ''/pipelines/'' @ pipeline_id,
                      data = spec\<lparr>libraries := Some (convert_to_libraries (rest_lib_objects @ remote_lib_objects)),
                                  credentials := Some creds\<rparr>,
                      headers = hdrs \<rparr>]\<rparr>)))"
  by (simp add: deploy_def assms Let_def split: sum.split option.split)

lemma deploy_upload_failed:
  assumes "partition_libraries_and_extract_local_paths urlsplit_scheme
             (convert_from_libraries (case libraries spec of None \<Rightarrow> [] | Some ls \<Rightarrow> ls))
           = Inr (local_lib_objects, rest_lib_objects)"
    and "hashed_lib_objects open_rb local_lib_objects = Inr remote_lib_objects"
    and "get_files_to_upload env w local_lib_objects remote_lib_objects = (Inr upload_files, w1)"
    and "upload_loop env w1 upload_files = (Inl e, w2)"
  shows "deploy urlsplit_scheme open_rb env cenv perform_query w spec hdrs = (Inl e, w2)"
  by (simp add: deploy_def assms Let_def)

lemma sha1_a: "sha1_hexdigest [0x61] = ''86f7e437faa5a7fce15d1ddcb9eaeaea377667b8''"
  by code_simp

lemma splitext_jar:
  "splitext_ext ''/tmp/a.jar'' = ''.jar''" "splitext_ext ''/tmp/b.jar'' = ''.jar''"
  "splitext_ext ''/tmp/c.jar'' = ''.jar''"
  by (simp_all add: splitext_ext_eq stem_def spec_extension_def final_segment_def)

lemma hashed_local_files:
  "get_hashed_path local_files ''/tmp/a.jar'' = Inr remote_a"
  "get_hashed_path local_files ''/tmp/b.jar'' = Inr remote_b"
  "get_hashed_path local_files ''/tmp/c.jar'' = Inr remote_c"
proof -
  have "local_files ''/tmp/a.jar'' = Inr []" by (simp add: local_files_def)
  from get_hashed_path_readable [of local_files "''/tmp/a.jar''" "[]", OF this]
  show "get_hashed_path local_files ''/tmp/a.jar'' = Inr remote_a"
    by (simp add: sha1_empty splitext_jar base_pipelines_dir_def remote_a_def)
  have "local_files ''/tmp/b.jar'' = Inr [0x61, 0x62, 0x63]" by (simp add: local_files_def)
  from get_hashed_path_readable [of local_files "''/tmp/b.jar''" "[0x61, 0x62, 0x63]", OF this]
  show "get_hashed_path local_files ''/tmp/b.jar'' = Inr remote_b"
    by (simp add: sha1_abc splitext_jar base_pipelines_dir_def remote_b_def)
  have "local_files ''/tmp/c.jar'' = Inr [0x61]" by (simp add: local_files_def)
  from get_hashed_path_readable [of local_files "''/tmp/c.jar''" "[0x61]", OF this]
  show "get_hashed_path local_files ''/tmp/c.jar'' = Inr remote_c"
    by (simp add: sha1_a splitext_jar base_pipelines_dir_def remote_c_def)
qed

lemma dbfs_path_remote:
  "DbfsPath (list_store failing) remote_a = Inr remote_a"
  "DbfsPath (list_store failing) remote_b = Inr remote_b"
  "DbfsPath (list_store failing) remote_c = Inr remote_c"
  by (simp_all add: list_store_def startswith_def remote_a_def remote_b_def remote_c_def)

lemma remote_distinct: "remote_a \<noteq> remote_b" "remote_a \<noteq> remote_c" "remote_b \<noteq> remote_c"
  by (simp_all add: remote_a_def remote_b_def remote_c_def)

text \<open>
  Claim C5. For local references and their remote references, pair by pair (the
  \<^verbatim>\<open>DbfsPath\<close> of every remote path being built without error), the plan is the list of
  the pairs, in order, whose remote path the store reports absent, and existence is
  asked once per pair, in order. No local reference gives the empty plan and asks
  nothing. The uploads made from the plan are calls for pairs of the plan, in its order,
  so no upload is issued for a pair whose remote path exists.
\<close>

theorem upload_plan_is_absent_pairs:
  assumes "length local_lib_objects = length remote_lib_objects"
    and "map (\<lambda>rlo. DbfsPath env (path rlo)) remote_lib_objects = map Inr dbfs_paths"
  shows "get_files_to_upload env w local_lib_objects remote_lib_objects
           = (Inr (absent_pairs env (store w) local_lib_objects
                     (transformed_remote_lib_objects remote_lib_objects dbfs_paths)),
              w\<lparr>exists_queries := exists_queries w @ dbfs_paths\<rparr>) \<and>
         list_all (\<lambda>(llo, rlo). \<not> file_exists env (store w) (path rlo))
           (absent_pairs env (store w) local_lib_objects
              (transformed_remote_lib_objects remote_lib_objects dbfs_paths)) \<and>
         get_files_to_upload env w [] remote_lib_objects = (Inr [], w) \<and>
         (\<exists>k. k \<le> length (absent_pairs env (store w) local_lib_objects
                          (transformed_remote_lib_objects remote_lib_objects dbfs_paths)) \<and>
              put_calls (snd (upload_loop env w1
                 (absent_pairs env (store w) local_lib_objects
                    (transformed_remote_lib_objects remote_lib_objects dbfs_paths))))
              = put_calls w1 @ map put_call (take k
                 (absent_pairs env (store w) local_lib_objects
                    (transformed_remote_lib_objects remote_lib_objects dbfs_paths))))"
proof -
  let ?plan = "absent_pairs env (store w) local_lib_objects
                 (transformed_remote_lib_objects remote_lib_objects dbfs_paths)"
  have plan: "get_files_to_upload env w local_lib_objects remote_lib_objects
      = (Inr ?plan, w\<lparr>exists_queries := exists_queries w @ dbfs_paths\<rparr>)"
    using files_to_upload_loop_eq [OF assms, of "store w"]
    by (simp add: get_files_to_upload_def absent_pairs_def)
  have absent: "list_all (\<lambda>(llo, rlo). \<not> file_exists env (store w) (path rlo)) ?plan"
    by (simp add: absent_pairs_def list_all_iff)
  have none: "get_files_to_upload env w [] remote_lib_objects = (Inr [], w)"
    by (simp add: get_files_to_upload_def)
  obtain outcome w2 where "upload_loop env w1 ?plan = (outcome, w2)"
    by (cases "upload_loop env w1 ?plan")
  from upload_loop_world [OF this] this
  have calls: "\<exists>k. k \<le> length ?plan \<and>
      put_calls (snd (upload_loop env w1 ?plan)) = put_calls w1 @ map put_call (take k ?plan)"
    by auto
  from plan absent none calls show ?thesis by blast
qed

theorem upload_plan_is_absent_pairs_witness:
  "get_files_to_upload (list_store []) (start_world [remote_a])
     [LibraryObject ''jar'' ''/tmp/a.jar'', LibraryObject ''jar'' ''/tmp/b.jar'']
     [LibraryObject ''jar'' remote_a, LibraryObject ''jar'' remote_b]
   = (Inr [(LibraryObject ''jar'' ''/tmp/b.jar'', LibraryObject ''jar'' remote_b)],
      (start_world [remote_a] :: (string list, string, unit) world)\<lparr>exists_queries := [remote_a, remote_b]\<rparr>)"
proof -
  let ?local = "[LibraryObject ''jar'' ''/tmp/a.jar'', LibraryObject ''jar'' ''/tmp/b.jar'']"
  let ?remote = "[LibraryObject ''jar'' remote_a, LibraryObject ''jar'' remote_b]"
  have len: "length ?local = length ?remote" by simp
  have paths: "map (\<lambda>rlo. DbfsPath (list_store []) (path rlo)) ?remote = map Inr [remote_a, remote_b]"
    by (simp add: LibraryObject_def dbfs_path_remote)
  from upload_plan_is_absent_pairs [OF len paths,
      of "start_world [remote_a] :: (string list, string, unit) world"] remote_distinct
  show ?thesis
    by (simp add: absent_pairs_def transformed_remote_lib_objects_def LibraryObject_def
        start_world_def list_store_def)
qed

lemma deploy_submits:
  assumes dep: "deploy urlsplit_scheme open_rb env cenv perform_query w spec hdrs = (outcome, w')"
    and sub: "requests w' \<noteq> requests w"
  shows "\<exists>local_lib_objects rest_lib_objects remote_lib_objects upload_files w1 w2 creds pipeline_id.
      partition_libraries_and_extract_local_paths urlsplit_scheme
        (convert_from_libraries (case libraries spec of None \<Rightarrow> [] | Some ls \<Rightarrow> ls))
        = Inr (local_lib_objects, rest_lib_objects) \<and>
      hashed_lib_objects open_rb local_lib_objects = Inr remote_lib_objects \<and>
      get_files_to_upload env w local_lib_objects remote_lib_objects = (Inr upload_files, w1) \<and>
      upload_loop env w1 upload_files = (Inr (), w2) \<and>
      get_credentials_for_request cenv = Inr creds \<and>
      spec_id spec = Some pipeline_id \<and>
      requests w2 = requests w \<and>
      w' = w2\<lparr>requests := requests w2 @
             [\<lparr> http_method = ''PUT'', url_path = ''/pipelines/'' @ pipeline_id,
                data = spec\<lparr>libraries := Some (convert_to_libraries (rest_lib_objects @ remote_lib_objects)),
                            credentials := Some creds\<rparr>,
                headers = hdrs \<rparr>]\<rparr>"
proof (cases "partition_libraries_and_extract_local_paths urlsplit_scheme
        (convert_from_libraries (case libraries spec of None \<Rightarrow> [] | Some ls \<Rightarrow> ls))")
  case (Inl e)
  with dep have "w' = w" by (simp add: deploy_def Let_def)
  with sub show ?thesis by simp
next
  case (Inr lr)
  then obtain local_lib_objects rest_lib_objects where
    part: "partition_libraries_and_extract_local_paths urlsplit_scheme
        (convert_from_libraries (case libraries spec of None \<Rightarrow> [] | Some ls \<Rightarrow> ls))
        = Inr (local_lib_objects, rest_lib_objects)"
    by (cases lr) simp
  show ?thesis
  proof (cases "hashed_lib_objects open_rb local_lib_objects")
    case (Inl e)
    with dep part have "w' = w" by (simp add: deploy_def Let_def)
    with sub show ?thesis by simp
  next
    case (Inr remote_lib_objects)
    note hashed = this
    obtain planned w1 where
      plan: "get_files_to_upload env w local_lib_objects remote_lib_objects = (planned, w1)"
      by (cases "get_files_to_upload env w local_lib_objects remote_lib_objects")
    from get_files_to_upload_world [OF plan] have w1: "requests w1 = requests w" by simp
    show ?thesis
    proof (cases planned)
      case (Inl e)
      with dep part hashed plan have "w' = w1" by (simp add: deploy_def Let_def)
      with sub w1 show ?thesis by simp
    next
      case (Inr upload_files)
      with plan have plan': "get_files_to_upload env w local_lib_objects remote_lib_objects
          = (Inr upload_files, w1)" by simp
      obtain uploaded w2 where up: "upload_loop env w1 upload_files = (uploaded, w2)"
        by (cases "upload_loop env w1 upload_files")
      from upload_loop_world [OF up] w1 have w2: "requests w2 = requests w" by simp
      show ?thesis
      proof (cases uploaded)
        case (Inl e)
        with up have "upload_loop env w1 upload_files = (Inl e, w2)" by simp
        from deploy_upload_failed [OF part hashed plan' this] dep have "w' = w2" by simp
        with sub w2 show ?thesis by simp
      next
        case (Inr u)
        with up have up': "upload_loop env w1 upload_files = (Inr (), w2)" by simp
        note after = deploy_after_uploads [OF part hashed plan' up', of cenv perform_query hdrs]
        show ?thesis
        proof (cases "get_credentials_for_request cenv")
          case (Inl e)
          with after dep have "w' = w2" by simp
          with sub w2 show ?thesis by simp
        next
          case (Inr creds)
          note creds = this
          show ?thesis
          proof (cases "spec_id spec")
            case None
            with after creds dep have "w' = w2" by simp
            with sub w2 show ?thesis by simp
          next
            case (Some pipeline_id)
            with after creds dep
            have "w' = w2\<lparr>requests := requests w2 @
               [\<lparr> http_method = ''PUT'', url_path = ''/pipelines/'' @ pipeline_id,
                  data = spec\<lparr>libraries := Some (convert_to_libraries (rest_lib_objects @ remote_lib_objects)),
                              credentials := Some creds\<rparr>,
                  headers = hdrs \<rparr>]\<rparr>"
              by simp
            with part hashed plan' up' creds Some w2 show ?thesis by blast
          qed
        qed
      qed
    qed
  qed
qed

lemma list_store_simps:
  "file_exists (list_store failing) st p = (p \<in> set st)"
  "put_file (list_store failing) st local_path p overwrite
     = (if local_path \<in> set failing then (Some ''quota exceeded'', st) else (None, st @ [p]))"
  by (simp_all add: list_store_def)

lemma three_jars_partition:
  "partition_libraries_and_extract_local_paths example_urlsplit_scheme
     (convert_from_libraries (case libraries three_jars_spec of None \<Rightarrow> [] | Some ls \<Rightarrow> ls))
   = Inr ([LibraryObject ''jar'' ''/tmp/a.jar'', LibraryObject ''jar'' ''/tmp/b.jar'',
           LibraryObject ''jar'' ''/tmp/c.jar''], [])"
  by (simp add: three_jars_spec_def convert_from_libraries_eq
      partition_libraries_and_extract_local_paths_def LibraryObject_def example_schemes)

lemma three_jars_hashed:
  "hashed_lib_objects local_files
     [LibraryObject ''jar'' ''/tmp/a.jar'', LibraryObject ''jar'' ''/tmp/b.jar'',
      LibraryObject ''jar'' ''/tmp/c.jar'']
   = Inr [LibraryObject ''jar'' remote_a, LibraryObject ''jar'' remote_b, LibraryObject ''jar'' remote_c]"
  by (simp add: LibraryObject_def hashed_local_files)

lemma three_jars_plan:
  "get_files_to_upload (list_store failing) (start_world [])
     [LibraryObject ''jar'' ''/tmp/a.jar'', LibraryObject ''jar'' ''/tmp/b.jar'',
      LibraryObject ''jar'' ''/tmp/c.jar'']
     [LibraryObject ''jar'' remote_a, LibraryObject ''jar'' remote_b, LibraryObject ''jar'' remote_c]
   = (Inr ([(LibraryObject ''jar'' ''/tmp/a.jar'', LibraryObject ''jar'' remote_a)] @
           (LibraryObject ''jar'' ''/tmp/b.jar'', LibraryObject ''jar'' remote_b) #
           [(LibraryObject ''jar'' ''/tmp/c.jar'', LibraryObject ''jar'' remote_c)]),
      \<lparr> store = [], exists_queries = [remote_a, remote_b, remote_c], put_calls = [], requests = [] \<rparr>)"
  by (simp add: get_files_to_upload_def LibraryObject_def dbfs_path_remote list_store_simps
      start_world_def)

text \<open>
  Claim C6. When the upload of a pair of the plan fails, the pairs before it having been
  uploaded, the deploy ends at once with the error the specification calls
  \<open>UploadError\<close>, whose message holds the cause and the local path of the failing pair.
  The world it leaves has the store as the failing call left it, after the earlier
  uploads and with nothing undone; the \<^verbatim>\<open>put_file\<close> calls made are those of the pairs up
  to the failing one, so no later pair is attempted; and nothing is submitted.
\<close>

theorem upload_failure_aborts_deploy:
  assumes "partition_libraries_and_extract_local_paths urlsplit_scheme
             (convert_from_libraries (case libraries spec of None \<Rightarrow> [] | Some ls \<Rightarrow> ls))
           = Inr (local_lib_objects, rest_lib_objects)"
    and "hashed_lib_objects open_rb local_lib_objects = Inr remote_lib_objects"
    and "get_files_to_upload env w local_lib_objects remote_lib_objects
           = (Inr (before @ (llo, rlo) # after), w0)"
    and "upload_loop env w0 before = (Inr (), w1)"
    and "put_file env (store w1) (path llo) (path rlo) False = (Some cause, st)"
  shows "deploy urlsplit_scheme open_rb env cenv perform_query w spec hdrs
           = (Inl (UploadError cause (path llo)),
              w1\<lparr>store := st, put_calls := put_calls w @ map put_call (before @ [(llo, rlo)])\<rparr>) \<and>
         UploadError cause (path llo)
           = RuntimeError (''Error '' @ [CHR 0x27] @ cause @ [CHR 0x27] @ '' while uploading '' @ path llo) \<and>
         put_calls w1 = put_calls w @ map put_call before \<and>
         requests w1 = requests w"
proof -
  let ?w = "w1\<lparr>store := st, put_calls := put_calls w1 @ [(path llo, path rlo, False)]\<rparr>"
  have "upload_loop env w1 ((llo, rlo) # after) = (Inl (UploadError cause (path llo)), ?w)"
    using assms(5) by (simp add: Let_def)
  with assms(4) have up: "upload_loop env w0 (before @ (llo, rlo) # after)
      = (Inl (UploadError cause (path llo)), ?w)"
    by (simp add: upload_loop_append del: upload_loop.simps)
  from get_files_to_upload_world [OF assms(3)]
  have w0: "requests w0 = requests w" "put_calls w0 = put_calls w" by simp_all
  from upload_loop_world [OF assms(4)] w0
  have w1: "requests w1 = requests w" "put_calls w1 = put_calls w @ map put_call before"
    by simp_all
  from w1 have "?w = w1\<lparr>store := st, put_calls := put_calls w @ map put_call (before @ [(llo, rlo)])\<rparr>"
    by (simp add: put_call_def)
  with deploy_upload_failed [OF assms(1,2,3) up, of cenv perform_query hdrs]
  have "deploy urlsplit_scheme open_rb env cenv perform_query w spec hdrs
      = (Inl (UploadError cause (path llo)),
         w1\<lparr>store := st, put_calls := put_calls w @ map put_call (before @ [(llo, rlo)])\<rparr>)"
    by simp
  with w1 show ?thesis by (simp add: UploadError_def)
qed

theorem upload_failure_aborts_deploy_witness:
  "deploy example_urlsplit_scheme local_files (list_store [''/tmp/b.jar'']) (default_env (Some token_config)) accept_query
     (start_world []) three_jars_spec None
   = (Inl (RuntimeError (''Error '' @ [CHR 0x27] @ ''quota exceeded'' @ [CHR 0x27] @
                          '' while uploading /tmp/b.jar'')),
      \<lparr> store = [remote_a], exists_queries = [remote_a, remote_b, remote_c],
        put_calls = [(''/tmp/a.jar'', remote_a, False), (''/tmp/b.jar'', remote_b, False)],
        requests = [] \<rparr>)"
proof -
  let ?env = "list_store [''/tmp/b.jar'']"
  let ?w0 = "\<lparr> store = [], exists_queries = [remote_a, remote_b, remote_c], put_calls = [],
               requests = [] \<rparr> :: (string list, string, unit request) world"
  let ?w1 = "\<lparr> store = [remote_a], exists_queries = [remote_a, remote_b, remote_c],
               put_calls = [(''/tmp/a.jar'', remote_a, False)],
               requests = [] \<rparr> :: (string list, string, unit request) world"
  have ok: "upload_loop ?env ?w0 [(LibraryObject ''jar'' ''/tmp/a.jar'', LibraryObject ''jar'' remote_a)]
      = (Inr (), ?w1)"
    by (simp add: list_store_simps LibraryObject_def)
  have fails: "put_file ?env (store ?w1) (path (LibraryObject ''jar'' ''/tmp/b.jar'' :: string library_object))
      (path (LibraryObject ''jar'' remote_b :: string library_object)) False
      = (Some ''quota exceeded'', [remote_a])"
    by (simp add: list_store_simps LibraryObject_def)
  from upload_failure_aborts_deploy [OF three_jars_partition three_jars_hashed three_jars_plan ok fails,
      of "default_env (Some token_config)" accept_query None]
  show ?thesis
    by (simp add: UploadError_def put_call_def LibraryObject_def start_world_def)
qed

lemma mixed_partition:
  "partition_libraries_and_extract_local_paths example_urlsplit_scheme
     (convert_from_libraries (case libraries (mixed_spec pipeline_id) of None \<Rightarrow> [] | Some ls \<Rightarrow> ls))
   = Inr ([LibraryObject ''jar'' ''/tmp/a.jar'', LibraryObject ''jar'' ''/tmp/b.jar''],
          [LibraryObject ''jar'' ''s3://bucket/c.jar'', LibraryObject ''whl'' ''dbfs:/x.whl''])"
  by (simp add: mixed_spec_def convert_from_libraries_eq
      partition_libraries_and_extract_local_paths_def LibraryObject_def example_schemes lower_file startswith_def lower_def lower_char_def)

lemma mixed_hashed:
  "hashed_lib_objects local_files
     [LibraryObject ''jar'' ''/tmp/a.jar'', LibraryObject ''jar'' ''/tmp/b.jar'']
   = Inr [LibraryObject ''jar'' remote_a, LibraryObject ''jar'' remote_b]"
  by (simp add: LibraryObject_def hashed_local_files)

lemma mixed_plan:
  "get_files_to_upload (list_store [])
     (start_world [remote_a] :: (string list, string, unit request) world)
     [LibraryObject ''jar'' ''/tmp/a.jar'', LibraryObject ''jar'' ''/tmp/b.jar'']
     [LibraryObject ''jar'' remote_a, LibraryObject ''jar'' remote_b]
   = (Inr [(LibraryObject ''jar'' ''/tmp/b.jar'', LibraryObject ''jar'' remote_b)],
      \<lparr> store = [remote_a], exists_queries = [remote_a, remote_b], put_calls = [], requests = [] \<rparr>)"
  using remote_distinct
  by (simp add: get_files_to_upload_def LibraryObject_def dbfs_path_remote list_store_simps
      start_world_def)

lemma mixed_uploads:
  "upload_loop (list_store [])
     (\<lparr> store = [remote_a], exists_queries = [remote_a, remote_b], put_calls = [], requests = [] \<rparr>
        :: (string list, string, unit request) world)
     [(LibraryObject ''jar'' ''/tmp/b.jar'', LibraryObject ''jar'' remote_b)]
   = (Inr (),
      \<lparr> store = [remote_a, remote_b], exists_queries = [remote_a, remote_b],
        put_calls = [(''/tmp/b.jar'', remote_b, False)], requests = [] \<rparr>)"
  by (simp add: list_store_simps LibraryObject_def)

lemma token_credentials:
  "get_credentials_for_request (default_env (Some token_config)) = Inr [(''token'', Some ''dapi123'')]"
  by (simp add: get_credentials_for_request_def resolve_config_def default_env_def token_config_def)

lemma mixed_deploy:
  "deploy example_urlsplit_scheme local_files (list_store []) (default_env (Some token_config)) accept_query
     (start_world [remote_a]) (mixed_spec (Some ''p1'')) None
   = (Inr (),
      \<lparr> store = [remote_a, remote_b], exists_queries = [remote_a, remote_b],
        put_calls = [(''/tmp/b.jar'', remote_b, False)],
        requests =
          [\<lparr> http_method = ''PUT'', url_path = ''/pipelines/p1'',
             data = \<lparr> spec_id = Some ''p1'',
                      libraries = Some [[(''jar'', ''s3://bucket/c.jar'')], [(''whl'', ''dbfs:/x.whl'')],
                                        [(''jar'', remote_a)], [(''jar'', remote_b)]],
                      credentials = Some [(''token'', Some ''dapi123'')] \<rparr>,
             headers = None \<rparr>] \<rparr>)"
  using deploy_after_uploads [where cenv = "default_env (Some token_config)"
      and perform_query = accept_query and hdrs = None,
      OF mixed_partition [of "Some ''p1''"] mixed_hashed mixed_plan mixed_uploads]
  by (simp add: token_credentials mixed_spec_def accept_query_def convert_to_libraries_eq
      LibraryObject_def)

text \<open>
  Claim C1. When a deploy reaches the submission, the \<^verbatim>\<open>libraries\<close> entry of the
  submitted specification is the pass-through references followed by the derived remote
  reference of every local reference, one single-key mapping each: with N local and K
  pass-through references it has N + K entries, and the entry of a local reference has
  its type and the remote path derived from its file. This holds for every store,
  whatever it reports to exist and whatever was uploaded.
\<close>

theorem submitted_libraries_complete:
  assumes "deploy urlsplit_scheme open_rb env cenv perform_query w spec hdrs = (outcome, w')"
    and "requests w' \<noteq> requests w"
    and "partition_libraries_and_extract_local_paths urlsplit_scheme
           (convert_from_libraries (case libraries spec of None \<Rightarrow> [] | Some ls \<Rightarrow> ls))
         = Inr (local_lib_objects, rest_lib_objects)"
  shows "\<exists>remote_lib_objects req.
           requests w' = requests w @ [req] \<and>
           hashed_lib_objects open_rb local_lib_objects = Inr remote_lib_objects \<and>
           list_all2 (\<lambda>llo rlo. lib_type rlo = lib_type llo \<and>
                        get_hashed_path open_rb (path llo) = Inr (path rlo))
             local_lib_objects remote_lib_objects \<and>
           libraries (data req)
             = Some (map (\<lambda>lo. [(lib_type lo, path lo)]) rest_lib_objects @
                     map (\<lambda>lo. [(lib_type lo, path lo)]) remote_lib_objects) \<and>
           length (map (\<lambda>lo. [(lib_type lo, path lo)]) rest_lib_objects @
                   map (\<lambda>lo. [(lib_type lo, path lo)]) remote_lib_objects)
             = length local_lib_objects + length rest_lib_objects"
proof -
  from deploy_submits [OF assms(1,2)] assms(3)
  obtain remote_lib_objects upload_files w1 w2 creds pipeline_id where
    hashed: "hashed_lib_objects open_rb local_lib_objects = Inr remote_lib_objects"
    and w2: "requests w2 = requests w"
    and w': "w' = w2\<lparr>requests := requests w2 @
             [\<lparr> http_method = ''PUT'', url_path = ''/pipelines/'' @ pipeline_id,
                data = spec\<lparr>libraries := Some (convert_to_libraries (rest_lib_objects @ remote_lib_objects)),
                            credentials := Some creds\<rparr>,
                headers = hdrs \<rparr>]\<rparr>"
    by auto
  let ?req = "\<lparr> http_method = ''PUT'', url_path = ''/pipelines/'' @ pipeline_id,
                data = spec\<lparr>libraries := Some (convert_to_libraries (rest_lib_objects @ remote_lib_objects)),
                            credentials := Some creds\<rparr>,
                headers = hdrs \<rparr>"
  from w' w2 have sent: "requests w' = requests w @ [?req]" by simp
  have libs: "libraries (data ?req)
      = Some (map (\<lambda>lo. [(lib_type lo, path lo)]) rest_lib_objects @
              map (\<lambda>lo. [(lib_type lo, path lo)]) remote_lib_objects)"
    by (simp add: convert_to_libraries_eq)
  note all2 = hashed_lib_objects_all2 [OF hashed]
  then have "length local_lib_objects = length remote_lib_objects"
    by (rule list_all2_lengthD)
  then have len: "length (map (\<lambda>lo. [(lib_type lo, path lo)]) rest_lib_objects @
                   map (\<lambda>lo. [(lib_type lo, path lo)]) remote_lib_objects)
             = length local_lib_objects + length rest_lib_objects"
    by simp
  from sent hashed all2 libs len show ?thesis by blast
qed

theorem submitted_libraries_complete_witness:
  "(\<exists>req. requests (snd (deploy example_urlsplit_scheme local_files (list_store []) (default_env (Some token_config))
                           accept_query (start_world [remote_a]) (mixed_spec (Some ''p1'')) None))
           = [req] \<and>
          libraries (data req)
            = Some [[(''jar'', ''s3://bucket/c.jar'')], [(''whl'', ''dbfs:/x.whl'')],
                    [(''jar'', remote_a)], [(''jar'', remote_b)]]) \<and>
   put_calls (snd (deploy example_urlsplit_scheme local_files (list_store []) (default_env (Some token_config))
                     accept_query (start_world [remote_a]) (mixed_spec (Some ''p1'')) None))
     = [(''/tmp/b.jar'', remote_b, False)]"
proof -
  let ?w' = "\<lparr> store = [remote_a, remote_b], exists_queries = [remote_a, remote_b],
        put_calls = [(''/tmp/b.jar'', remote_b, False)],
        requests =
          [\<lparr> http_method = ''PUT'', url_path = ''/pipelines/p1'',
             data = \<lparr> spec_id = Some ''p1'',
                      libraries = Some [[(''jar'', ''s3://bucket/c.jar'')], [(''whl'', ''dbfs:/x.whl'')],
                                        [(''jar'', remote_a)], [(''jar'', remote_b)]],
                      credentials = Some [(''token'', Some ''dapi123'')] \<rparr>,
             headers = None \<rparr>] \<rparr> :: (string list, string, unit request) world"
  have sub: "requests ?w' \<noteq> requests (start_world [remote_a] :: (string list, string, unit request) world)"
    by (simp add: start_world_def)
  from submitted_libraries_complete [OF mixed_deploy sub mixed_partition]
  obtain remote_lib_objects req where
    sent: "requests ?w' = requests (start_world [remote_a] :: (string list, string, unit request) world) @ [req]"
    and hashed: "hashed_lib_objects local_files
        [LibraryObject ''jar'' ''/tmp/a.jar'', LibraryObject ''jar'' ''/tmp/b.jar''] = Inr remote_lib_objects"
    and libs: "libraries (data req)
      = Some (map (\<lambda>lo. [(lib_type lo, path lo)])
                [LibraryObject ''jar'' ''s3://bucket/c.jar'', LibraryObject ''whl'' ''dbfs:/x.whl''] @
              map (\<lambda>lo. [(lib_type lo, path lo)]) remote_lib_objects)"
    by blast
  from hashed mixed_hashed
  have "remote_lib_objects = [LibraryObject ''jar'' remote_a, LibraryObject ''jar'' remote_b]"
    by simp
  with libs have "libraries (data req)
      = Some [[(''jar'', ''s3://bucket/c.jar'')], [(''whl'', ''dbfs:/x.whl'')],
              [(''jar'', remote_a)], [(''jar'', remote_b)]]"
    by (simp add: LibraryObject_def)
  moreover from sent have "[req] = requests ?w'"
    by (simp add: start_world_def)
  ultimately show ?thesis
    unfolding mixed_deploy by auto
qed

text \<open>
  Claim C8, as stated, at a specification without \<^verbatim>\<open>id\<close> and with valid credentials:
  \<^verbatim>\<open>spec['id']\<close> raises Python's \<^verbatim>\<open>KeyError\<close>, which is not the
  \<^verbatim>\<open>InvalidConfigurationError\<close> that the module raises for credentials.
\<close>

theorem missing_id_counterexample:
  "deploy example_urlsplit_scheme local_files (list_store []) (default_env (Some token_config)) accept_query
     (start_world [remote_a]) (mixed_spec None) None
   = (Inl (KeyError ''id''),
      \<lparr> store = [remote_a, remote_b], exists_queries = [remote_a, remote_b],
        put_calls = [(''/tmp/b.jar'', remote_b, False)], requests = [] \<rparr>) \<and>
   \<not> ConfigurationError (KeyError ''id'')"
  using deploy_after_uploads [where cenv = "default_env (Some token_config)"
      and perform_query = accept_query and hdrs = None,
      OF mixed_partition [of None] mixed_hashed mixed_plan mixed_uploads]
  by (simp add: token_credentials mixed_spec_def ConfigurationError_def)

text \<open>
  Claim C8, amended. When the specification has no \<^verbatim>\<open>id\<close> entry nothing is ever
  submitted. When, moreover, the libraries are partitioned and hashed, the plan is made
  and carried out without error and the credentials are resolved, the deploy fails with
  the \<^verbatim>\<open>KeyError\<close> of the key \<^verbatim>\<open>id\<close>, which is not an \<^verbatim>\<open>InvalidConfigurationError\<close>,
  and leaves the world as the uploads left it.
\<close>

theorem missing_id_raises_key_error:
  assumes "spec_id spec = None"
  shows "requests (snd (deploy urlsplit_scheme open_rb env cenv perform_query w spec hdrs)) = requests w \<and>
         (partition_libraries_and_extract_local_paths urlsplit_scheme
            (convert_from_libraries (case libraries spec of None \<Rightarrow> [] | Some ls \<Rightarrow> ls))
            = Inr (local_lib_objects, rest_lib_objects) \<and>
          hashed_lib_objects open_rb local_lib_objects = Inr remote_lib_objects \<and>
          get_files_to_upload env w local_lib_objects remote_lib_objects = (Inr upload_files, w1) \<and>
          upload_loop env w1 upload_files = (Inr (), w2) \<and>
          get_credentials_for_request cenv = Inr creds \<longrightarrow>
            deploy urlsplit_scheme open_rb env cenv perform_query w spec hdrs = (Inl (KeyError ''id''), w2) \<and>
            \<not> ConfigurationError (KeyError ''id''))"
proof -
  obtain outcome w' where dep: "deploy urlsplit_scheme open_rb env cenv perform_query w spec hdrs = (outcome, w')"
    by (cases "deploy urlsplit_scheme open_rb env cenv perform_query w spec hdrs")
  have "requests w' = requests w"
  proof (rule ccontr)
    assume "requests w' \<noteq> requests w"
    from deploy_submits [OF dep this] assms show False by auto
  qed
  with dep have none: "requests (snd (deploy urlsplit_scheme open_rb env cenv perform_query w spec hdrs)) = requests w"
    by simp
  have key: "partition_libraries_and_extract_local_paths urlsplit_scheme
            (convert_from_libraries (case libraries spec of None \<Rightarrow> [] | Some ls \<Rightarrow> ls))
            = Inr (local_lib_objects, rest_lib_objects) \<and>
          hashed_lib_objects open_rb local_lib_objects = Inr remote_lib_objects \<and>
          get_files_to_upload env w local_lib_objects remote_lib_objects = (Inr upload_files, w1) \<and>
          upload_loop env w1 upload_files = (Inr (), w2) \<and>
          get_credentials_for_request cenv = Inr creds \<longrightarrow>
            deploy urlsplit_scheme open_rb env cenv perform_query w spec hdrs = (Inl (KeyError ''id''), w2) \<and>
            \<not> ConfigurationError (KeyError ''id'')"
  proof (intro impI, elim conjE)
    assume a: "partition_libraries_and_extract_local_paths urlsplit_scheme
            (convert_from_libraries (case libraries spec of None \<Rightarrow> [] | Some ls \<Rightarrow> ls))
            = Inr (local_lib_objects, rest_lib_objects)"
      "hashed_lib_objects open_rb local_lib_objects = Inr remote_lib_objects"
      "get_files_to_upload env w local_lib_objects remote_lib_objects = (Inr upload_files, w1)"
      "upload_loop env w1 upload_files = (Inr (), w2)"
      and c: "get_credentials_for_request cenv = Inr creds"
    from deploy_after_uploads [OF a, of cenv perform_query hdrs] c assms
    show "deploy urlsplit_scheme open_rb env cenv perform_query w spec hdrs = (Inl (KeyError ''id''), w2) \<and>
            \<not> ConfigurationError (KeyError ''id'')"
      by (simp add: ConfigurationError_def)
  qed
  from none key show ?thesis by blast
qed

theorem missing_id_raises_key_error_witness:
  "requests (snd (deploy example_urlsplit_scheme local_files (list_store []) (default_env (Some token_config)) accept_query
     (start_world [remote_a] :: (string list, string, unit request) world) (mixed_spec None) None)) = [] \<and>
   deploy example_urlsplit_scheme local_files (list_store []) (default_env (Some token_config)) accept_query
     (start_world [remote_a] :: (string list, string, unit request) world) (mixed_spec None) None
     = (Inl (KeyError ''id''),
        \<lparr> store = [remote_a, remote_b], exists_queries = [remote_a, remote_b],
          put_calls = [(''/tmp/b.jar'', remote_b, False)], requests = [] \<rparr>)"
proof -
  have noid: "spec_id (mixed_spec None) = None" by (simp add: mixed_spec_def)
  note inst = missing_id_raises_key_error [OF noid,
      where urlsplit_scheme = example_urlsplit_scheme and open_rb = local_files and env = "list_store []"
        and cenv = "default_env (Some token_config)" and perform_query = accept_query
        and w = "start_world [remote_a] :: (string list, string, unit request) world"
        and hdrs = None
        and local_lib_objects = "[LibraryObject ''jar'' ''/tmp/a.jar'', LibraryObject ''jar'' ''/tmp/b.jar'']"
        and rest_lib_objects = "[LibraryObject ''jar'' ''s3://bucket/c.jar'', LibraryObject ''whl'' ''dbfs:/x.whl'']"
        and remote_lib_objects = "[LibraryObject ''jar'' remote_a, LibraryObject ''jar'' remote_b]"
        and upload_files = "[(LibraryObject ''jar'' ''/tmp/b.jar'', LibraryObject ''jar'' remote_b)]"
        and ?w1.0 = "\<lparr> store = [remote_a], exists_queries = [remote_a, remote_b], put_calls = [],
                        requests = [] \<rparr>"
        and ?w2.0 = "\<lparr> store = [remote_a, remote_b], exists_queries = [remote_a, remote_b],
                        put_calls = [(''/tmp/b.jar'', remote_b, False)], requests = [] \<rparr>"
        and creds = "[(''token'', Some ''dapi123'')]"]
  from inst have none: "requests (snd (deploy example_urlsplit_scheme local_files (list_store []) (default_env (Some token_config))
      accept_query (start_world [remote_a] :: (string list, string, unit request) world)
      (mixed_spec None) None)) = []"
    by (simp add: start_world_def)
  from inst mixed_partition [of None] mixed_hashed mixed_plan mixed_uploads token_credentials
  have "deploy example_urlsplit_scheme local_files (list_store []) (default_env (Some token_config)) accept_query
     (start_world [remote_a] :: (string list, string, unit request) world) (mixed_spec None) None
     = (Inl (KeyError ''id''),
        \<lparr> store = [remote_a, remote_b], exists_queries = [remote_a, remote_b],
          put_calls = [(''/tmp/b.jar'', remote_b, False)], requests = [] \<rparr>)"
    by blast
  with none show ?thesis by blast
qed

end
